theory Spec2Isabelle
  imports Complex_Main "HOL-Library.Multiset"
begin

section \<open>Values: doubles, exceptions, Python objects\<close>

text \<open>
  The recorders of \<^verbatim>\<open>pywr/recorders/_recorders.pyx\<close> compute with C doubles.
  A double is modelled as an exact rational, or one of the three special values of
  IEEE 754. Finite arithmetic is exact here: rounding, overflow to infinity and the sign
  of zero are outside this model, so every statement below is about the structure of the
  computation, not about its last bit.
\<close>

datatype dbl = Num rat | PInf | NInf | NaN

datatype py_error =
    ValueError | KeyError | TypeError | IndexError | ZeroDivisionError
  | NotImplementedError | AxisError | AssertionError

fun isnan :: "dbl \<Rightarrow> bool" where
  "isnan NaN = True"
| "isnan _ = False"

fun dneg :: "dbl \<Rightarrow> dbl" where
  "dneg (Num a) = Num (- a)"
| "dneg PInf = NInf"
| "dneg NInf = PInf"
| "dneg NaN = NaN"

fun dadd :: "dbl \<Rightarrow> dbl \<Rightarrow> dbl" where
  "dadd (Num a) (Num b) = Num (a + b)"
| "dadd NaN _ = NaN"
| "dadd _ NaN = NaN"
| "dadd PInf NInf = NaN"
| "dadd NInf PInf = NaN"
| "dadd PInf _ = PInf"
| "dadd NInf _ = NInf"
| "dadd _ PInf = PInf"
| "dadd _ NInf = NInf"

definition dsub :: "dbl \<Rightarrow> dbl \<Rightarrow> dbl" where
  "dsub a b = dadd a (dneg b)"

text \<open>The sign of a double that is not NaN: \<open>-1\<close>, \<open>0\<close> or \<open>1\<close>.\<close>

fun dsgn :: "dbl \<Rightarrow> int" where
  "dsgn (Num a) = (if a < 0 then - 1 else if a = 0 then 0 else 1)"
| "dsgn PInf = 1"
| "dsgn NInf = - 1"
| "dsgn NaN = 0"

definition signed_inf :: "int \<Rightarrow> dbl" where
  "signed_inf s = (if s < 0 then NInf else PInf)"

fun dmul :: "dbl \<Rightarrow> dbl \<Rightarrow> dbl" where
  "dmul (Num a) (Num b) = Num (a * b)"
| "dmul NaN _ = NaN"
| "dmul _ NaN = NaN"
| "dmul a b = (if dsgn a = 0 \<or> dsgn b = 0 then NaN else signed_inf (dsgn a * dsgn b))"

text \<open>
  IEEE division, as the C operator \<^verbatim>\<open>/\<close> and numpy perform it: a zero divisor gives
  an infinity, or NaN for \<open>0/0\<close>.
\<close>

fun ddiv :: "dbl \<Rightarrow> dbl \<Rightarrow> dbl" where
  "ddiv NaN _ = NaN"
| "ddiv _ NaN = NaN"
| "ddiv (Num a) (Num b) =
     (if b = 0 then (if a = 0 then NaN else signed_inf (dsgn (Num a))) else Num (a / b))"
| "ddiv (Num a) _ = Num 0"
| "ddiv a (Num b) = signed_inf (dsgn a * (if b < 0 then - 1 else 1))"
| "ddiv _ _ = NaN"

text \<open>
  The binary operator \<^verbatim>\<open>/\<close> on C doubles as Cython compiles it in this module (the
  directive \<^verbatim>\<open>cdivision\<close> is off): a zero divisor raises \<^verbatim>\<open>ZeroDivisionError\<close>
  before the C division happens. The in-place \<^verbatim>\<open>/=\<close> on an element of a memoryview is
  not checked: it is the plain C division \<open>ddiv\<close>.
\<close>

definition cy_div :: "dbl \<Rightarrow> dbl \<Rightarrow> py_error + dbl" where
  "cy_div a b = (if b = Num 0 then Inl ZeroDivisionError else Inr (ddiv a b))"

text \<open>Comparisons: every comparison with NaN is false.\<close>

fun dlt :: "dbl \<Rightarrow> dbl \<Rightarrow> bool" where
  "dlt (Num a) (Num b) = (a < b)"
| "dlt NInf (Num b) = True"
| "dlt NInf PInf = True"
| "dlt (Num a) PInf = True"
| "dlt _ _ = False"

definition dgt :: "dbl \<Rightarrow> dbl \<Rightarrow> bool" where
  "dgt a b = dlt b a"

fun dabs :: "dbl \<Rightarrow> dbl" where
  "dabs (Num a) = Num \<bar>a\<bar>"
| "dabs NaN = NaN"
| "dabs _ = PInf"

section \<open>The numpy reductions the module calls\<close>

text \<open>
  numpy is a library, not part of this repository; the reductions are written out from
  its documented behaviour on a one-dimensional array of doubles. \<^verbatim>\<open>np.sum\<close> and
  \<^verbatim>\<open>np.product\<close> fold from their identities; \<^verbatim>\<open>np.max\<close> and \<^verbatim>\<open>np.min\<close> raise
  \<^verbatim>\<open>ValueError\<close> on an empty array and propagate NaN; \<^verbatim>\<open>np.mean\<close> is the sum
  divided by the length (NaN for an empty array); \<^verbatim>\<open>np.median\<close> is NaN for an empty
  array or one that holds a NaN, and otherwise the middle of the sorted values.
\<close>

definition np_sum :: "dbl list \<Rightarrow> dbl" where
  "np_sum xs = foldl dadd (Num 0) xs"

definition np_product :: "dbl list \<Rightarrow> dbl" where
  "np_product xs = foldl dmul (Num 1) xs"

definition nan_max :: "dbl \<Rightarrow> dbl \<Rightarrow> dbl" where
  "nan_max a b = (if isnan a then a else if isnan b then b else if dlt a b then b else a)"

definition nan_min :: "dbl \<Rightarrow> dbl \<Rightarrow> dbl" where
  "nan_min a b = (if isnan a then a else if isnan b then b else if dlt b a then b else a)"

fun np_max :: "dbl list \<Rightarrow> py_error + dbl" where
  "np_max [] = Inl ValueError"
| "np_max (x # xs) = Inr (foldl nan_max x xs)"

fun np_min :: "dbl list \<Rightarrow> py_error + dbl" where
  "np_min [] = Inl ValueError"
| "np_min (x # xs) = Inr (foldl nan_min x xs)"

definition np_mean :: "dbl list \<Rightarrow> dbl" where
  "np_mean xs = ddiv (np_sum xs) (Num (of_nat (length xs)))"

fun dinsert :: "dbl \<Rightarrow> dbl list \<Rightarrow> dbl list" where
  "dinsert x [] = [x]"
| "dinsert x (y # ys) = (if dlt y x then y # dinsert x ys else x # y # ys)"

definition dsort :: "dbl list \<Rightarrow> dbl list" where
  "dsort xs = foldr dinsert xs []"

definition np_median :: "dbl list \<Rightarrow> dbl" where
  "np_median xs =
     (if xs = [] \<or> (\<exists>x \<in> set xs. isnan x) then NaN
      else let s = dsort xs; n = length s in
        if odd n then s ! (n div 2)
        else ddiv (dadd (s ! (n div 2 - 1)) (s ! (n div 2))) (Num 2))"

section \<open>Aggregator\<close>

text \<open>The enum \<^verbatim>\<open>AggFuncs\<close>; its members carry a prefix because \<open>SUM\<close>, \<open>MIN\<close> and
  \<open>MAX\<close> are binders of HOL.\<close>

datatype AggFuncs = Agg_SUM | Agg_MIN | Agg_MAX | Agg_MEAN | Agg_MEDIAN | Agg_PRODUCT | Agg_CUSTOM

text \<open>
  A user-supplied reduction is one Python callable that the Aggregator calls in two ways:
  with a vector (\<^verbatim>\<open>aggregate_1d\<close>), and with a matrix and the keyword \<^verbatim>\<open>axis\<close>
  (\<^verbatim>\<open>aggregate_2d\<close>, \<^verbatim>\<open>AggregatedRecorder.values\<close>).
\<close>

record user_callable =
  on_vector :: "dbl list \<Rightarrow> dbl"
  on_matrix :: "dbl list list \<Rightarrow> nat \<Rightarrow> dbl list"

text \<open>The Python values that reach the \<^verbatim>\<open>agg_func\<close> arguments.\<close>

datatype pyobj =
    PyStr string | PyCallable user_callable | PyNone | PyInt int | PyBool bool | PyFloat dbl

definition lower_char :: "char \<Rightarrow> char" where
  "lower_char c =
     (let n = (of_char c :: nat) in if 65 \<le> n \<and> n \<le> 90 then char_of (n + 32) else c)"

definition lower :: "string \<Rightarrow> string" where
  "lower s = map lower_char s"

definition agg_func_lookup :: "string \<rightharpoonup> AggFuncs" where
  "agg_func_lookup =
     map_of [(''sum'', Agg_SUM), (''min'', Agg_MIN), (''max'', Agg_MAX), (''mean'', Agg_MEAN),
             (''median'', Agg_MEDIAN), (''product'', Agg_PRODUCT), (''custom'', Agg_CUSTOM)]"

record Aggregator =
  func :: AggFuncs
  user_func :: "user_callable option"

text \<open>\<^verbatim>\<open>Aggregator.__init__\<close>, which is the setter of the property \<^verbatim>\<open>func\<close>.\<close>

fun Aggregator_init :: "pyobj \<Rightarrow> py_error + Aggregator" where
  "Aggregator_init (PyStr s) =
     (case agg_func_lookup (lower s) of
        None \<Rightarrow> Inl KeyError
      | Some f \<Rightarrow> Inr \<lparr>func = f, user_func = None\<rparr>)"
| "Aggregator_init (PyCallable c) = Inr \<lparr>func = Agg_CUSTOM, user_func = Some c\<rparr>"
| "Aggregator_init _ = Inl ValueError"

text \<open>
  The dispatch on the function code, shared by both methods. Calling the user function
  when none is stored calls \<^verbatim>\<open>None\<close>, a \<^verbatim>\<open>TypeError\<close>.
\<close>

definition reduce_1d :: "Aggregator \<Rightarrow> dbl list \<Rightarrow> py_error + dbl" where
  "reduce_1d agg vals =
     (case func agg of
        Agg_PRODUCT \<Rightarrow> Inr (np_product vals)
      | Agg_SUM \<Rightarrow> Inr (np_sum vals)
      | Agg_MAX \<Rightarrow> np_max vals
      | Agg_MIN \<Rightarrow> np_min vals
      | Agg_MEAN \<Rightarrow> Inr (np_mean vals)
      | Agg_MEDIAN \<Rightarrow> Inr (np_median vals)
      | Agg_CUSTOM \<Rightarrow> (case user_func agg of None \<Rightarrow> Inl TypeError
                                      | Some c \<Rightarrow> Inr (on_vector c vals)))"

text \<open>
  \<^verbatim>\<open>aggregate_1d(data, ignore_nan=False)\<close>: with \<^verbatim>\<open>ignore_nan\<close> the NaN entries are
  masked out first.
\<close>

definition aggregate_1d :: "Aggregator \<Rightarrow> dbl list \<Rightarrow> bool \<Rightarrow> py_error + dbl" where
  "aggregate_1d agg data ignore_nan =
     (let vals = (if ignore_nan then filter (\<lambda>x. \<not> isnan x) data else data)
      in reduce_1d agg vals)"

text \<open>
  A two-dimensional array is the list of its rows. An array without rows is \<open>[]\<close>, so
  its number of columns counts as zero.
\<close>

type_synonym matrix = "dbl list list"

definition ncols :: "matrix \<Rightarrow> nat" where
  "ncols m = (case m of [] \<Rightarrow> 0 | r # _ \<Rightarrow> length r)"

definition column :: "matrix \<Rightarrow> nat \<Rightarrow> dbl list" where
  "column m j = map (\<lambda>r. r ! j) m"

text \<open>Running a fallible function over a list stops at the first exception.\<close>

fun map_result :: "('a \<Rightarrow> py_error + 'b) \<Rightarrow> 'a list \<Rightarrow> py_error + 'b list" where
  "map_result f [] = Inr []"
| "map_result f (x # xs) =
     (case f x of
        Inl e \<Rightarrow> Inl e
      | Inr y \<Rightarrow> (case map_result f xs of Inl e \<Rightarrow> Inl e | Inr ys \<Rightarrow> Inr (y # ys)))"

text \<open>
  A numpy reduction along an axis of a matrix: axis 0 reduces every column, axis 1 every
  row; any other axis is numpy's \<^verbatim>\<open>AxisError\<close>.
\<close>

definition along_axis :: "(dbl list \<Rightarrow> py_error + dbl) \<Rightarrow> matrix \<Rightarrow> nat \<Rightarrow> py_error + dbl list" where
  "along_axis red m axis =
     (if axis = 0 then map_result (\<lambda>j. red (column m j)) [0..<ncols m]
      else if axis = 1 then map_result red m
      else Inl AxisError)"

text \<open>
  \<^verbatim>\<open>aggregate_2d(data, axis=0, ignore_nan=False)\<close>. With \<^verbatim>\<open>ignore_nan\<close> the line
  \<^verbatim>\<open>values = np.array(values)[~np.isnan(values)]\<close> indexes the matrix with a boolean
  mask, which gives a one-dimensional array; \<^verbatim>\<open>values\<close> is declared
  \<^verbatim>\<open>double[:, :]\<close>, so the assignment raises \<^verbatim>\<open>ValueError\<close> (wrong number of
  dimensions) whatever the data holds.
\<close>

definition aggregate_2d :: "Aggregator \<Rightarrow> matrix \<Rightarrow> nat \<Rightarrow> bool \<Rightarrow> py_error + dbl list" where
  "aggregate_2d agg data axis ignore_nan =
     (if ignore_nan then Inl ValueError
      else case func agg of
        Agg_CUSTOM \<Rightarrow> (case user_func agg of None \<Rightarrow> Inl TypeError
                                      | Some c \<Rightarrow> Inr (on_matrix c data axis))
      | _ \<Rightarrow> along_axis (reduce_1d agg) data axis)"

section \<open>Recorder\<close>

datatype ObjDirection = NONE | MAXIMISE | MINIMISE

record Recorder =
  ignore_nan :: bool
  is_objective :: ObjDirection
  is_constraint :: bool
  epsilon :: dbl
  scenario_aggregator :: Aggregator

text \<open>
  \<^verbatim>\<open>Recorder.values\<close> of the base class raises; \<^verbatim>\<open>aggregated_value\<close> calls the
  \<^verbatim>\<open>values()\<close> of the subclass, here its argument, and then \<^verbatim>\<open>aggregate_1d\<close> with the
  default \<^verbatim>\<open>ignore_nan=False\<close>.
\<close>

definition Recorder_values :: "py_error + dbl list" where
  "Recorder_values = Inl NotImplementedError"

definition aggregated_value :: "('a Recorder_scheme) \<Rightarrow> py_error + dbl list \<Rightarrow> py_error + dbl" where
  "aggregated_value r vals =
     (case vals of
        Inl e \<Rightarrow> Inl e
      | Inr v \<Rightarrow> aggregate_1d (scenario_aggregator r) v False)"

text \<open>
  The keyword arguments of a constructor are a dictionary from names to Python values.
  \<^verbatim>\<open>Recorder.__init__\<close> reads \<^verbatim>\<open>agg_func\<close> (default \<^verbatim>\<open>"mean"\<close>),
  \<^verbatim>\<open>ignore_nan\<close>, \<^verbatim>\<open>is_objective\<close>, \<^verbatim>\<open>epsilon\<close> and \<^verbatim>\<open>is_constraint\<close>; the
  name and the rest go to \<^verbatim>\<open>Component.__init__\<close>, which is not part of this module.
\<close>

type_synonym kwargs = "string \<rightharpoonup> pyobj"

definition obj_direction_lookup :: "string \<rightharpoonup> ObjDirection" where
  "obj_direction_lookup =
     map_of [(''maximize'', MAXIMISE), (''maximise'', MAXIMISE), (''max'', MAXIMISE),
             (''minimise'', MINIMISE), (''minimize'', MINIMISE), (''min'', MINIMISE)]"

fun set_is_objective :: "pyobj \<Rightarrow> py_error + ObjDirection" where
  "set_is_objective PyNone = Inr NONE"
| "set_is_objective (PyStr s) =
     (case obj_direction_lookup s of None \<Rightarrow> Inl KeyError | Some d \<Rightarrow> Inr d)"
| "set_is_objective _ = Inl KeyError"

text \<open>Assigning a Python value to a \<^verbatim>\<open>bint\<close> attribute takes its truth value.\<close>

fun truthy :: "pyobj \<Rightarrow> bool" where
  "truthy (PyBool b) = b"
| "truthy PyNone = False"
| "truthy (PyInt n) = (n \<noteq> 0)"
| "truthy (PyFloat x) = (x \<noteq> Num 0)"
| "truthy (PyStr s) = (s \<noteq> [])"
| "truthy (PyCallable c) = True"

text \<open>Assigning a Python value to a \<^verbatim>\<open>double\<close> attribute converts a number.\<close>

fun as_double :: "pyobj \<Rightarrow> py_error + dbl" where
  "as_double (PyFloat x) = Inr x"
| "as_double (PyInt n) = Inr (Num (of_int n))"
| "as_double (PyBool b) = Inr (Num (if b then 1 else 0))"
| "as_double _ = Inl TypeError"

definition kw_get :: "kwargs \<Rightarrow> string \<Rightarrow> pyobj \<Rightarrow> pyobj" where
  "kw_get kw k d = (case kw k of None \<Rightarrow> d | Some v \<Rightarrow> v)"

definition Recorder_init :: "kwargs \<Rightarrow> py_error + Recorder" where
  "Recorder_init kw =
     (case set_is_objective (kw_get kw ''is_objective'' PyNone) of
        Inl e \<Rightarrow> Inl e
      | Inr d \<Rightarrow>
     (case as_double (kw_get kw ''epsilon'' (PyFloat (Num 1))) of
        Inl e \<Rightarrow> Inl e
      | Inr eps \<Rightarrow>
     (case Aggregator_init (kw_get kw ''agg_func'' (PyStr ''mean'')) of
        Inl e \<Rightarrow> Inl e
      | Inr a \<Rightarrow>
          Inr \<lparr>ignore_nan = truthy (kw_get kw ''ignore_nan'' (PyBool False)),
               is_objective = d,
               is_constraint = truthy (kw_get kw ''is_constraint'' (PyBool False)),
               epsilon = eps,
               scenario_aggregator = a\<rparr>)))"

section \<open>AggregatedRecorder\<close>

text \<open>
  The child recorders are referenced, not owned; all that \<^verbatim>\<open>values()\<close> does with a
  child is to call its \<^verbatim>\<open>values()\<close>, so a child is modelled by what that call gives:
  a vector, or the exception it raises.
\<close>

type_synonym child = "py_error + dbl list"

record AggregatedRecorder = Recorder +
  recorder_agg_func :: "user_callable option"
  recorder_agg_func_code :: AggFuncs
  recorders :: "child list"

text \<open>
  \<^verbatim>\<open>AggregatedRecorder.__init__\<close>. The recorder aggregation function is
  \<^verbatim>\<open>kwargs.pop('recorder_agg_func', kwargs.get('agg_func'))\<close>, decoded before the
  constructor of the base class runs on the remaining keywords.
\<close>

definition AggregatedRecorder_init :: "child list \<Rightarrow> kwargs \<Rightarrow> py_error + AggregatedRecorder" where
  "AggregatedRecorder_init recs kw =
     (let agg_func = (case kw ''recorder_agg_func'' of
                        Some f \<Rightarrow> f
                      | None \<Rightarrow> (case kw ''agg_func'' of Some f \<Rightarrow> f | None \<Rightarrow> PyNone));
          kw' = kw(''recorder_agg_func'' := None);
          decoded = (case agg_func of
                       PyStr s \<Rightarrow> (case agg_func_lookup (lower s) of
                                      None \<Rightarrow> Inl KeyError
                                    | Some f \<Rightarrow> Inr (None, f))
                     | PyCallable c \<Rightarrow> Inr (Some c, Agg_CUSTOM)
                     | _ \<Rightarrow> Inl ValueError)
      in case decoded of
           Inl e \<Rightarrow> Inl e
         | Inr (uf, code) \<Rightarrow>
             (case Recorder_init kw' of
                Inl e \<Rightarrow> Inl e
              | Inr r \<Rightarrow> Inr (Recorder.extend r
                    \<lparr>recorder_agg_func = uf, recorder_agg_func_code = code, recorders = recs\<rparr>)))"

text \<open>
  The inner loop \<^verbatim>\<open>for i in range(n): value[i] = f(value[i], value2[i])\<close>; reading
  \<^verbatim>\<open>value2[i]\<close> past the end of a child's vector raises \<^verbatim>\<open>IndexError\<close>.
\<close>

fun update_each :: "(dbl \<Rightarrow> dbl \<Rightarrow> dbl) \<Rightarrow> nat list \<Rightarrow> dbl list \<Rightarrow> dbl list \<Rightarrow> py_error + dbl list" where
  "update_each f [] val val2 = Inr val"
| "update_each f (i # is) val val2 =
     (if i < length val \<and> i < length val2
      then update_each f is (val[i := f (val ! i) (val2 ! i)]) val2
      else Inl IndexError)"

text \<open>The outer loop \<^verbatim>\<open>for recorder in self.recorders: value2 = recorder.values(); ...\<close>\<close>

fun fold_recorders :: "(dbl \<Rightarrow> dbl \<Rightarrow> dbl) \<Rightarrow> nat \<Rightarrow> dbl list \<Rightarrow> child list \<Rightarrow> py_error + dbl list" where
  "fold_recorders f n val [] = Inr val"
| "fold_recorders f n val (r # rs) =
     (case r of
        Inl e \<Rightarrow> Inl e
      | Inr val2 \<Rightarrow>
          (case update_each f [0..<n] val val2 of
             Inl e \<Rightarrow> Inl e
           | Inr val' \<Rightarrow> fold_recorders f n val' rs))"

definition keep_greater :: "dbl \<Rightarrow> dbl \<Rightarrow> dbl" where
  "keep_greater v v2 = (if dgt v2 v then v2 else v)"

definition keep_less :: "dbl \<Rightarrow> dbl \<Rightarrow> dbl" where
  "keep_less v v2 = (if dlt v2 v then v2 else v)"

text \<open>
  \<^verbatim>\<open>AggregatedRecorder.values\<close>; \<open>n\<close> is \<^verbatim>\<open>len(self.model.scenarios.combinations)\<close>.
  Every code other than the five named ones takes the last branch, which calls the stored
  callable on the list of the children's vectors with \<^verbatim>\<open>axis=0\<close>.
\<close>

definition AggregatedRecorder_values :: "AggregatedRecorder \<Rightarrow> nat \<Rightarrow> py_error + dbl list" where
  "AggregatedRecorder_values self n =
     (if length (recorders self) = 0 then Inl AssertionError
      else case recorder_agg_func_code self of
        Agg_PRODUCT \<Rightarrow> fold_recorders dmul n (replicate n (Num 1)) (recorders self)
      | Agg_SUM \<Rightarrow> fold_recorders dadd n (replicate n (Num 0)) (recorders self)
      | Agg_MAX \<Rightarrow> fold_recorders keep_greater n (replicate n NInf) (recorders self)
      | Agg_MIN \<Rightarrow> fold_recorders keep_less n (replicate n PInf) (recorders self)
      | Agg_MEAN \<Rightarrow>
          (case fold_recorders dadd n (replicate n (Num 0)) (recorders self) of
             Inl e \<Rightarrow> Inl e
           | Inr val \<Rightarrow>
               Inr (map (\<lambda>v. ddiv v (Num (of_nat (length (recorders self))))) val))
      | _ \<Rightarrow>
          (case map_result id (recorders self) of
             Inl e \<Rightarrow> Inl e
           | Inr vs \<Rightarrow>
               (case recorder_agg_func self of
                  None \<Rightarrow> Inl TypeError
                | Some c \<Rightarrow> Inr (on_matrix c vs 0))))"

text \<open>
  The elementwise combination in the words of the specification: entry \<open>i\<close> of the result
  is the fold of \<open>f\<close> from \<open>init\<close> over entry \<open>i\<close> of every child, in order.
\<close>

definition elementwise :: "(dbl \<Rightarrow> dbl \<Rightarrow> dbl) \<Rightarrow> dbl \<Rightarrow> dbl list list \<Rightarrow> nat \<Rightarrow> dbl list" where
  "elementwise f init vs n = map (\<lambda>i. foldl f init (map (\<lambda>v. v ! i) vs)) [0..<n]"

text \<open>
  The maximum and the minimum in the words of the specification. Every comparison with
  NaN is false, so a NaN entry never replaces the running value: \<open>m\<close> is the greatest of
  \<open>xs\<close> when it is not NaN, no entry of \<open>xs\<close> is greater, and it is an entry of \<open>xs\<close>
  or the minus infinity the fold starts from; the least is the mirror image.
\<close>

definition greatest_of :: "dbl list \<Rightarrow> dbl \<Rightarrow> bool" where
  "greatest_of xs m \<longleftrightarrow> \<not> isnan m \<and> (m = NInf \<or> m \<in> set xs) \<and> (\<forall>x \<in> set xs. \<not> dlt m x)"

definition least_of :: "dbl list \<Rightarrow> dbl \<Rightarrow> bool" where
  "least_of xs m \<longleftrightarrow> \<not> isnan m \<and> (m = PInf \<or> m \<in> set xs) \<and> (\<forall>x \<in> set xs. \<not> dlt x m)"

section \<open>Arrays, and the engine that drives a recorder\<close>

text \<open>
  Writes into a typed memoryview are bounds-checked: an index past the end raises
  \<^verbatim>\<open>IndexError\<close>. Assigning a vector to a whole row needs the two extents to agree.
\<close>

definition set_entry :: "matrix \<Rightarrow> nat \<Rightarrow> nat \<Rightarrow> dbl \<Rightarrow> py_error + matrix" where
  "set_entry m r c v =
     (if r < length m \<and> c < length (m ! r) then Inr (m[r := (m ! r)[c := v]])
      else Inl IndexError)"

definition set_row :: "'a list list \<Rightarrow> nat \<Rightarrow> 'a list \<Rightarrow> py_error + 'a list list" where
  "set_row m r v =
     (if length m \<le> r then Inl IndexError
      else if length v \<noteq> length (m ! r) then Inl ValueError
      else Inr (m[r := v]))"

text \<open>\<^verbatim>\<open>np.zeros((r, c))\<close>, and \<^verbatim>\<open>a[...] = x\<close> which keeps the shape.\<close>

definition zeros :: "nat \<Rightarrow> nat \<Rightarrow> matrix" where
  "zeros r c = replicate r (replicate c (Num 0))"

definition fill :: "dbl \<Rightarrow> matrix \<Rightarrow> matrix" where
  "fill x m = map (map (\<lambda>_. x)) m"

text \<open>
  \<^verbatim>\<open>np.empty((r, c))\<close> has the shape asked for and whatever the allocator left in it;
  the contents are a parameter.
\<close>

definition empty_array :: "(nat \<Rightarrow> nat \<Rightarrow> dbl) \<Rightarrow> nat \<Rightarrow> nat \<Rightarrow> matrix" where
  "empty_array junk r c = map (\<lambda>t. map (junk t) [0..<c]) [0..<r]"

text \<open>The Python slice \<^verbatim>\<open>xs[0:n]\<close>; a negative bound counts from the end.\<close>

definition slice_to :: "int \<Rightarrow> 'a list \<Rightarrow> 'a list" where
  "slice_to n xs = (if 0 \<le> n then take (nat n) xs else take (length xs - nat (- n)) xs)"

text \<open>
  Modelled from the spec: the simulation engine (the model and its timestepper are not
  in this module). Section 2 of the specification: it ``invokes \<^verbatim>\<open>setup()\<close> once,
  \<^verbatim>\<open>reset()\<close> before each run, \<^verbatim>\<open>after(timestep)\<close> once per timestep per recorder,
  \<^verbatim>\<open>finish()\<close> once at run end''; section 3: the row index of the time buffer is the
  current timestep index. \<open>run_after\<close> makes the \<^verbatim>\<open>after()\<close> calls of one run, the
  timestep index counting up from \<open>t\<close>; each call gets what the bound entity shows at
  that timestep.
\<close>

fun run_after :: "('s \<Rightarrow> nat \<Rightarrow> 'x \<Rightarrow> py_error + 's) \<Rightarrow> 's \<Rightarrow> nat \<Rightarrow> 'x list \<Rightarrow> py_error + 's" where
  "run_after after s t [] = Inr s"
| "run_after after s t (x # xs) =
     (case after s t x of
        Inl e \<Rightarrow> Inl e
      | Inr s' \<Rightarrow> run_after after s' (Suc t) xs)"

section \<open>RollingWindowParameterRecorder\<close>

text \<open>
  The fields that the lifecycle methods touch. Fields of the two rolling recorders
  carry the prefixes \<open>rw_\<close> and \<open>rm_\<close>, since both classes call them \<^verbatim>\<open>position\<close>,
  \<^verbatim>\<open>_memory\<close> and \<^verbatim>\<open>_data\<close>.
\<close>

record RollingWindowParameterRecorder =
  rw_temporal_aggregator :: Aggregator
  window :: int
  rw_position :: nat
  rw_memory :: matrix
  rw_data :: matrix

text \<open>
  \<^verbatim>\<open>setup()\<close>: both arrays have one row per timestep and one column per scenario
  combination; \<^verbatim>\<open>_memory\<close> comes from \<^verbatim>\<open>np.empty\<close>.
\<close>

definition RollingWindow_setup ::
  "Aggregator \<Rightarrow> int \<Rightarrow> (nat \<Rightarrow> nat \<Rightarrow> dbl) \<Rightarrow> nat \<Rightarrow> nat \<Rightarrow> RollingWindowParameterRecorder" where
  "RollingWindow_setup agg w junk nts ncomb =
     \<lparr>rw_temporal_aggregator = agg, window = w, rw_position = 0,
      rw_memory = empty_array junk nts ncomb, rw_data = zeros nts ncomb\<rparr>"

definition RollingWindow_reset :: "RollingWindowParameterRecorder \<Rightarrow> RollingWindowParameterRecorder" where
  "RollingWindow_reset self = self\<lparr>rw_data := fill (Num 0) (rw_data self), rw_position := 0\<rparr>"

text \<open>
  The loop \<^verbatim>\<open>for i, scenario_index in enumerate(combinations):
  self._memory[self.position, i] = self._param.get_value(scenario_index)\<close>; \<open>vals\<close> is
  the list of the parameter's values over the scenario combinations, in order.
\<close>

fun store_values :: "nat \<Rightarrow> nat \<Rightarrow> dbl list \<Rightarrow> matrix \<Rightarrow> py_error + matrix" where
  "store_values p i [] m = Inr m"
| "store_values p i (v # vs) m =
     (case set_entry m p i v of
        Inl e \<Rightarrow> Inl e
      | Inr m' \<Rightarrow> store_values p (Suc i) vs m')"

text \<open>
  \<^verbatim>\<open>after()\<close> at the timestep with index \<open>index\<close>. A window of zero makes the slice
  an array of no rows and \<open>ncomb\<close> columns, which the list of rows cannot tell from the
  array of no columns; the statements below are about windows of at least one timestep.
\<close>

definition RollingWindow_after ::
  "RollingWindowParameterRecorder \<Rightarrow> nat \<Rightarrow> dbl list \<Rightarrow> py_error + RollingWindowParameterRecorder" where
  "RollingWindow_after self index vals =
     (case store_values (rw_position self) 0 vals (rw_memory self) of
        Inl e \<Rightarrow> Inl e
      | Inr mem \<Rightarrow>
          (let n = (if int index < window self then int index + 1 else window self) in
           case aggregate_2d (rw_temporal_aggregator self) (slice_to n mem) 0 False of
             Inl e \<Rightarrow> Inl e
           | Inr val \<Rightarrow>
               (case set_row (rw_data self) index val of
                  Inl e \<Rightarrow> Inl e
                | Inr d \<Rightarrow>
                    (let pos = rw_position self + 1 in
                     Inr (self\<lparr>rw_memory := mem, rw_data := d,
                               rw_position := (if window self \<le> int pos then 0 else pos)\<rparr>)))))"

section \<open>RollingMeanFlowNodeRecorder\<close>

record RollingMeanFlowNodeRecorder =
  timesteps :: int
  days :: int
  rm_position :: nat
  rm_memory :: matrix
  rm_data :: matrix

text \<open>
  \<^verbatim>\<open>__init__(timesteps=None, days=None)\<close> keeps the two numbers, zero for one that is
  missing or zero, and raises when both are.
\<close>

definition RollingMean_init :: "int option \<Rightarrow> int option \<Rightarrow> py_error + int \<times> int" where
  "RollingMean_init ts ds =
     (let number = (\<lambda>x. case x of None \<Rightarrow> 0 | Some (n::int) \<Rightarrow> n) in
      if number ts = 0 \<and> number ds = 0 then Inl ValueError
      else Inr (number ts, number ds))"

text \<open>
  \<^verbatim>\<open>setup()\<close>: \<^verbatim>\<open>_data\<close> comes from \<^verbatim>\<open>np.empty\<close>, \<^verbatim>\<open>_memory\<close> has one row per
  scenario combination and one column per timestep of the window. \<open>delta_days\<close> is
  \<^verbatim>\<open>self.model.timestepper.delta.days\<close>; \<^verbatim>\<open>//\<close> is the floor division of Python.
  \<^verbatim>\<open>np.zeros\<close> refuses a negative dimension.
\<close>

definition RollingMean_setup ::
  "int \<times> int \<Rightarrow> int \<Rightarrow> (nat \<Rightarrow> nat \<Rightarrow> dbl) \<Rightarrow> nat \<Rightarrow> nat \<Rightarrow> py_error + RollingMeanFlowNodeRecorder" where
  "RollingMean_setup cfg delta_days junk nts ncomb =
     (case cfg of (ts, ds) \<Rightarrow>
        if ds \<noteq> 0 \<and> delta_days = 0 then Inl ZeroDivisionError
        else let ts' = (if ds \<noteq> 0 then ds div delta_days else ts) in
          if ts' = 0 then Inl ValueError
          else if ts' < 0 then Inl ValueError
          else Inr \<lparr>timesteps = ts', days = ds, rm_position = 0,
                    rm_memory = zeros ncomb (nat ts'),
                    rm_data = empty_array junk nts ncomb\<rparr>)"

text \<open>
  The class defines no \<^verbatim>\<open>reset()\<close>. The one it inherits is that of \<^verbatim>\<open>Component\<close>,
  through \<^verbatim>\<open>NodeRecorder\<close> and \<^verbatim>\<open>Recorder\<close>, which define none either;
  \<^verbatim>\<open>position\<close>, \<^verbatim>\<open>_memory\<close> and \<^verbatim>\<open>_data\<close> are private C attributes of this class,
  which no method of a base class can reach, so a reset leaves them as they are.
\<close>

definition RollingMean_reset :: "RollingMeanFlowNodeRecorder \<Rightarrow> RollingMeanFlowNodeRecorder" where
  "RollingMean_reset self = self"

text \<open>
  The loop \<^verbatim>\<open>for i in range(0, self._memory.shape[0]):
  self._memory[i, self.position] = self._node._flow[i]\<close>.
\<close>

fun store_flow :: "nat \<Rightarrow> nat list \<Rightarrow> dbl list \<Rightarrow> matrix \<Rightarrow> py_error + matrix" where
  "store_flow p [] flow m = Inr m"
| "store_flow p (i # is) flow m =
     (if length flow \<le> i then Inl IndexError
      else case set_entry m i p (flow ! i) of
        Inl e \<Rightarrow> Inl e
      | Inr m' \<Rightarrow> store_flow p is flow m')"

definition RollingMean_after ::
  "RollingMeanFlowNodeRecorder \<Rightarrow> nat \<Rightarrow> dbl list \<Rightarrow> py_error + RollingMeanFlowNodeRecorder" where
  "RollingMean_after self index flow =
     (case store_flow (rm_position self) [0..<length (rm_memory self)] flow (rm_memory self) of
        Inl e \<Rightarrow> Inl e
      | Inr mem \<Rightarrow>
          (let n = (if int index < timesteps self then int index + 1 else timesteps self);
               mean_flow = map (\<lambda>row. np_mean (slice_to n row)) mem in
           case set_row (rm_data self) index mean_flow of
             Inl e \<Rightarrow> Inl e
           | Inr d \<Rightarrow>
               (let pos = rm_position self + 1 in
                Inr (self\<lparr>rm_memory := mem, rm_data := d,
                          rm_position := (if timesteps self \<le> int pos then 0 else pos)\<rparr>))))"

text \<open>
  One run of each recorder as the engine drives it: \<^verbatim>\<open>reset()\<close>, then one
  \<^verbatim>\<open>after()\<close> per timestep from index 0. Neither class defines \<^verbatim>\<open>finish()\<close>.
\<close>

definition RollingWindow_run ::
  "RollingWindowParameterRecorder \<Rightarrow> dbl list list \<Rightarrow> py_error + RollingWindowParameterRecorder" where
  "RollingWindow_run self samples = run_after RollingWindow_after (RollingWindow_reset self) 0 samples"

definition RollingMean_run ::
  "RollingMeanFlowNodeRecorder \<Rightarrow> dbl list list \<Rightarrow> py_error + RollingMeanFlowNodeRecorder" where
  "RollingMean_run self flows = run_after RollingMean_after (RollingMean_reset self) 0 flows"

text \<open>
  The window of the specification at timestep \<open>t\<close>: the samples of the last \<open>w\<close>
  timesteps up to and including \<open>t\<close>, or all \<open>t + 1\<close> of them while fewer than \<open>w\<close>
  have been seen.
\<close>

definition window_samples :: "nat \<Rightarrow> 'a list \<Rightarrow> nat \<Rightarrow> 'a list" where
  "window_samples w samples t = drop (Suc t - min (Suc t) w) (take (Suc t) samples)"

text \<open>
  For the proofs: the timestep whose sample a circular buffer of \<open>w\<close> positions holds
  in position \<open>p\<close> once \<open>k\<close> timesteps have been written, each timestep \<open>t\<close> into
  position \<open>t mod w\<close>.
\<close>

fun slot :: "nat \<Rightarrow> nat \<Rightarrow> nat \<Rightarrow> nat" where
  "slot w 0 p = 0"
| "slot w (Suc k) p = (if p = k mod w then k else slot w k p)"

text \<open>
  A temporal aggregator keeps the shape when its user function, if it has one, returns
  one entry per column for axis 0, as the built-in reductions do.
\<close>

definition shape_preserving :: "Aggregator \<Rightarrow> bool" where
  "shape_preserving agg =
     (func agg = Agg_CUSTOM \<longrightarrow>
        (\<exists>c. user_func agg = Some c \<and> (\<forall>m. length (on_matrix c m 0) = ncols m)))"

text \<open>
  Two runs in a row on the same recorder, fed the same entity values, as the engine
  makes them: each run starts with \<^verbatim>\<open>reset()\<close>; \<^verbatim>\<open>setup()\<close> is not repeated.
  The result is the buffered \<^verbatim>\<open>data\<close> after the first run and after the second.
\<close>

definition RollingMean_two_runs ::
  "RollingMeanFlowNodeRecorder \<Rightarrow> dbl list list \<Rightarrow> py_error + matrix \<times> matrix" where
  "RollingMean_two_runs s0 flows =
     (case RollingMean_run s0 flows of
        Inl e \<Rightarrow> Inl e
      | Inr s1 \<Rightarrow>
          (case RollingMean_run s1 flows of
             Inl e \<Rightarrow> Inl e
           | Inr s2 \<Rightarrow> Inr (rm_data s1, rm_data s2)))"

definition RollingWindow_two_runs ::
  "RollingWindowParameterRecorder \<Rightarrow> dbl list list \<Rightarrow> py_error + matrix \<times> matrix" where
  "RollingWindow_two_runs s0 samples =
     (case RollingWindow_run s0 samples of
        Inl e \<Rightarrow> Inl e
      | Inr s1 \<Rightarrow>
          (case RollingWindow_run s1 samples of
             Inl e \<Rightarrow> Inl e
           | Inr s2 \<Rightarrow> Inr (rw_data s1, rw_data s2)))"

section \<open>AnnualCountIndexParameterRecorder\<close>

text \<open>
  A scenario combination (\<^verbatim>\<open>ScenarioIndex\<close>, declared in \<^verbatim>\<open>pywr._core\<close>): its global
  id, and its index in every scenario.
\<close>

record ScenarioIndex =
  global_id :: nat
  indices :: "nat list"

text \<open>
  \<^verbatim>\<open>_count\<close> and \<^verbatim>\<open>_current_max\<close> are int32 arrays, \<^verbatim>\<open>_current_year\<close> a C int.
  A count grows by at most one per call, so it cannot wrap in a run of fewer than
  \<open>2^31\<close> timesteps; the integers are modelled without a bound. The field \<^verbatim>\<open>_count\<close>
  is called \<open>year_count\<close> here.
\<close>

record AnnualCountIndexParameterRecorder =
  threshold :: int
  year_count :: "int list"
  current_max :: "int list"
  current_year :: int

definition AnnualCount_setup :: "int \<Rightarrow> nat \<Rightarrow> AnnualCountIndexParameterRecorder" where
  "AnnualCount_setup thr ncomb =
     \<lparr>threshold = thr, year_count = replicate ncomb 0, current_max = replicate ncomb 0,
      current_year = 0\<rparr>"

definition AnnualCount_reset :: "AnnualCountIndexParameterRecorder \<Rightarrow> AnnualCountIndexParameterRecorder" where
  "AnnualCount_reset self =
     self\<lparr>year_count := map (\<lambda>_. 0) (year_count self),
          current_max := map (\<lambda>_. 0) (current_max self),
          current_year := - 1\<rparr>"

text \<open>
  The loop \<^verbatim>\<open>for i in range(ncomb): if self._current_max[i] >= self.threshold:
  self._count[i] += 1\<close>, which \<^verbatim>\<open>after()\<close> and \<^verbatim>\<open>finish()\<close> both run.
\<close>

fun count_years :: "int \<Rightarrow> nat list \<Rightarrow> int list \<Rightarrow> int list \<Rightarrow> py_error + int list" where
  "count_years thr [] cmax cnt = Inr cnt"
| "count_years thr (i # is) cmax cnt =
     (if length cmax \<le> i then Inl IndexError
      else if thr \<le> cmax ! i then
        (if length cnt \<le> i then Inl IndexError
         else count_years thr is cmax (cnt[i := cnt ! i + 1]))
      else count_years thr is cmax cnt)"

text \<open>
  The loop over the scenario combinations that raises the maximum of the year;
  \<open>get_index\<close> is \<^verbatim>\<open>self._param.get_index\<close> at the current timestep.
\<close>

fun track_max :: "(ScenarioIndex \<Rightarrow> int) \<Rightarrow> ScenarioIndex list \<Rightarrow> int list \<Rightarrow> py_error + int list" where
  "track_max get_index [] cmax = Inr cmax"
| "track_max get_index (sc # scs) cmax =
     (let v = get_index sc in
      if length cmax \<le> global_id sc then Inl IndexError
      else if cmax ! global_id sc < v
        then track_max get_index scs (cmax[global_id sc := v])
        else track_max get_index scs cmax)"

text \<open>
  \<^verbatim>\<open>after()\<close>; \<open>combinations\<close> is \<^verbatim>\<open>self.model.scenarios.combinations\<close> and the
  timestep gives its calendar year and the parameter's indices.
\<close>

definition AnnualCount_after ::
  "ScenarioIndex list \<Rightarrow> AnnualCountIndexParameterRecorder \<Rightarrow> nat \<Rightarrow> int \<times> (ScenarioIndex \<Rightarrow> int)
     \<Rightarrow> py_error + AnnualCountIndexParameterRecorder" where
  "AnnualCount_after combinations self index ts =
     (case ts of (year, get_index) \<Rightarrow>
       (let ncomb = length combinations;
            new_year =
              (if year \<noteq> current_year self then
                 (case (if current_year self \<noteq> - 1
                        then count_years (threshold self) [0..<ncomb] (current_max self) (year_count self)
                        else Inr (year_count self)) of
                    Inl e \<Rightarrow> Inl e
                  | Inr cnt \<Rightarrow>
                      Inr (self\<lparr>year_count := cnt,
                                current_max := map (\<lambda>_. 0) (current_max self),
                                current_year := year\<rparr>))
               else Inr self)
        in case new_year of
             Inl e \<Rightarrow> Inl e
           | Inr self' \<Rightarrow>
               (case track_max get_index combinations (current_max self') of
                  Inl e \<Rightarrow> Inl e
                | Inr cmax \<Rightarrow> Inr (self'\<lparr>current_max := cmax\<rparr>))))"

definition AnnualCount_finish ::
  "ScenarioIndex list \<Rightarrow> AnnualCountIndexParameterRecorder \<Rightarrow> py_error + AnnualCountIndexParameterRecorder" where
  "AnnualCount_finish combinations self =
     (case count_years (threshold self) [0..<length combinations] (current_max self) (year_count self) of
        Inl e \<Rightarrow> Inl e
      | Inr cnt \<Rightarrow> Inr (self\<lparr>year_count := cnt\<rparr>))"

definition AnnualCount_values :: "AnnualCountIndexParameterRecorder \<Rightarrow> dbl list" where
  "AnnualCount_values self = map (\<lambda>c. Num (of_int c)) (year_count self)"

text \<open>A whole run as the engine drives it, and the \<^verbatim>\<open>values()\<close> after it.\<close>

definition AnnualCount_run ::
  "int \<Rightarrow> ScenarioIndex list \<Rightarrow> (int \<times> (ScenarioIndex \<Rightarrow> int)) list \<Rightarrow> py_error + dbl list" where
  "AnnualCount_run thr combinations steps =
     (case run_after (AnnualCount_after combinations)
             (AnnualCount_reset (AnnualCount_setup thr (length combinations))) 0 steps of
        Inl e \<Rightarrow> Inl e
      | Inr s \<Rightarrow>
          (case AnnualCount_finish combinations s of
             Inl e \<Rightarrow> Inl e
           | Inr s' \<Rightarrow> Inr (AnnualCount_values s')))"

text \<open>
  The count in the words of the specification, for one scenario whose timesteps carry
  the pairs (year, index). The series splits into years, maximal runs of timesteps with
  the same year; the tracked maximum of a year starts from 0; the count is the number of
  years whose tracked maximum meets the threshold.
\<close>

function year_groups :: "(int \<times> int) list \<Rightarrow> (int \<times> int list) list" where
  "year_groups [] = []"
| "year_groups ((y, v) # rest) =
     (y, v # map snd (takeWhile (\<lambda>s. fst s = y) rest))
       # year_groups (dropWhile (\<lambda>s. fst s = y) rest)"
  by pat_completeness auto
termination
  by (relation "measure length") (auto simp: length_dropWhile_le less_Suc_eq_le)

definition tracked_max :: "int list \<Rightarrow> int" where
  "tracked_max vs = foldl max 0 vs"

definition years_counted :: "int \<Rightarrow> (int \<times> int) list \<Rightarrow> nat" where
  "years_counted thr series =
     length (filter (\<lambda>g. thr \<le> tracked_max (snd g)) (year_groups series))"

text \<open>
  For the proofs: what one call of \<^verbatim>\<open>after()\<close> does to the count, the maximum and the
  year of a single scenario, given the year of the timestep and the scenario's index.
\<close>

fun scenario_after :: "int \<Rightarrow> int \<times> int \<times> int \<Rightarrow> int \<times> int \<Rightarrow> int \<times> int \<times> int" where
  "scenario_after thr (c, m, cy) (y, v) =
     (if y \<noteq> cy then ((if cy \<noteq> - 1 \<and> thr \<le> m then c + 1 else c), max 0 v, y)
      else (c, max m v, y))"

section \<open>MeanFlowNodeRecorder and DeficitFrequencyNodeRecorder\<close>

text \<open>
  \<^verbatim>\<open>BaseConstantNodeRecorder\<close> keeps one double per scenario combination in
  \<^verbatim>\<open>_values\<close>, which \<^verbatim>\<open>values()\<close> returns as it is; the field is called \<open>acc\<close> here.
\<close>

record BaseConstantNodeRecorder =
  acc :: "dbl list"

definition BaseConstant_setup :: "nat \<Rightarrow> BaseConstantNodeRecorder" where
  "BaseConstant_setup ncomb = \<lparr>acc = replicate ncomb (Num 0)\<rparr>"

definition BaseConstant_reset :: "BaseConstantNodeRecorder \<Rightarrow> BaseConstantNodeRecorder" where
  "BaseConstant_reset self = self\<lparr>acc := map (\<lambda>_. Num 0) (acc self)\<rparr>"

definition BaseConstant_values :: "BaseConstantNodeRecorder \<Rightarrow> dbl list" where
  "BaseConstant_values self = acc self"

text \<open>
  \<^verbatim>\<open>MeanFlowNodeRecorder.after\<close>: for every scenario combination,
  \<^verbatim>\<open>self._values[i] += self._node._flow[i]*self.factor\<close> with \<open>i\<close> its global id.
\<close>

fun add_flows :: "dbl \<Rightarrow> dbl list \<Rightarrow> ScenarioIndex list \<Rightarrow> dbl list \<Rightarrow> py_error + dbl list" where
  "add_flows factor flow [] vals = Inr vals"
| "add_flows factor flow (sc # scs) vals =
     (let i = global_id sc in
      if length vals \<le> i \<or> length flow \<le> i then Inl IndexError
      else add_flows factor flow scs (vals[i := dadd (vals ! i) (dmul (flow ! i) factor)]))"

definition MeanFlow_after ::
  "dbl \<Rightarrow> ScenarioIndex list \<Rightarrow> BaseConstantNodeRecorder \<Rightarrow> nat \<Rightarrow> dbl list
     \<Rightarrow> py_error + BaseConstantNodeRecorder" where
  "MeanFlow_after factor combinations self index flow =
     (case add_flows factor flow combinations (acc self) of
        Inl e \<Rightarrow> Inl e
      | Inr vals \<Rightarrow> Inr (self\<lparr>acc := vals\<rparr>))"

text \<open>
  \<^verbatim>\<open>DeficitFrequencyNodeRecorder.after\<close>: a timestep counts for a scenario when
  \<^verbatim>\<open>abs(node._flow[id] - max_flow) > 1e-6\<close>.
\<close>

definition in_deficit :: "dbl \<Rightarrow> dbl \<Rightarrow> bool" where
  "in_deficit flow max_flow = dgt (dabs (dsub flow max_flow)) (Num (1 / 1000000))"

fun add_deficits ::
  "dbl list \<Rightarrow> (ScenarioIndex \<Rightarrow> dbl) \<Rightarrow> ScenarioIndex list \<Rightarrow> dbl list \<Rightarrow> py_error + dbl list" where
  "add_deficits flow get_max_flow [] vals = Inr vals"
| "add_deficits flow get_max_flow (sc # scs) vals =
     (let max_flow = get_max_flow sc; i = global_id sc in
      if length flow \<le> i then Inl IndexError
      else if in_deficit (flow ! i) max_flow then
        (if length vals \<le> i then Inl IndexError
         else add_deficits flow get_max_flow scs (vals[i := dadd (vals ! i) (Num 1)]))
      else add_deficits flow get_max_flow scs vals)"

definition DeficitFrequency_after ::
  "ScenarioIndex list \<Rightarrow> BaseConstantNodeRecorder \<Rightarrow> nat \<Rightarrow> dbl list \<times> (ScenarioIndex \<Rightarrow> dbl)
     \<Rightarrow> py_error + BaseConstantNodeRecorder" where
  "DeficitFrequency_after combinations self index ts =
     (case ts of (flow, get_max_flow) \<Rightarrow>
        (case add_deficits flow get_max_flow combinations (acc self) of
           Inl e \<Rightarrow> Inl e
         | Inr vals \<Rightarrow> Inr (self\<lparr>acc := vals\<rparr>)))"

text \<open>
  \<^verbatim>\<open>finish()\<close>, the same in both classes: \<^verbatim>\<open>self._values[i] /= nt\<close> for every entry,
  where \<open>nt\<close> is \<^verbatim>\<open>self.model.timestepper.current.index\<close>. The in-place division is
  the plain C one: with \<open>nt\<close> zero an entry becomes an infinity or NaN, and nothing is
  raised.
\<close>

definition BaseConstant_finish :: "int \<Rightarrow> BaseConstantNodeRecorder \<Rightarrow> BaseConstantNodeRecorder" where
  "BaseConstant_finish nt self =
     self\<lparr>acc := map (\<lambda>v. ddiv v (Num (of_int nt))) (acc self)\<rparr>"

text \<open>
  Modelled from the spec: the value of \<^verbatim>\<open>self.model.timestepper.current.index\<close> when
  \<^verbatim>\<open>finish()\<close> runs. The timestepper belongs to the model and is not in this module;
  section 4.7 of the specification calls what \<^verbatim>\<open>finish()\<close> divides by the ``elapsed
  timestep count'', so after a run of \<open>n\<close> timesteps it is \<open>n\<close>.
\<close>

definition current_index_at_finish :: "nat \<Rightarrow> int" where
  "current_index_at_finish n = int n"

text \<open>A whole run of each recorder and the \<^verbatim>\<open>values()\<close> after it.\<close>

definition MeanFlow_run :: "dbl \<Rightarrow> ScenarioIndex list \<Rightarrow> dbl list list \<Rightarrow> py_error + dbl list" where
  "MeanFlow_run factor combinations flows =
     (case run_after (MeanFlow_after factor combinations)
             (BaseConstant_reset (BaseConstant_setup (length combinations))) 0 flows of
        Inl e \<Rightarrow> Inl e
      | Inr s \<Rightarrow>
          Inr (BaseConstant_values
                 (BaseConstant_finish (current_index_at_finish (length flows)) s)))"

definition DeficitFrequency_run ::
  "ScenarioIndex list \<Rightarrow> (dbl list \<times> (ScenarioIndex \<Rightarrow> dbl)) list \<Rightarrow> py_error + dbl list" where
  "DeficitFrequency_run combinations steps =
     (case run_after (DeficitFrequency_after combinations)
             (BaseConstant_reset (BaseConstant_setup (length combinations))) 0 steps of
        Inl e \<Rightarrow> Inl e
      | Inr s \<Rightarrow>
          Inr (BaseConstant_values
                 (BaseConstant_finish (current_index_at_finish (length steps)) s)))"

text \<open>
  The accumulated totals in the words of the specification: for scenario \<open>i\<close>, the sum
  over the timesteps of \<open>flow \<times> factor\<close>, and the number of timesteps in deficit.
\<close>

definition total_flow :: "dbl \<Rightarrow> dbl list list \<Rightarrow> nat \<Rightarrow> dbl" where
  "total_flow factor flows i = foldl dadd (Num 0) (map (\<lambda>flow. dmul (flow ! i) factor) flows)"

definition deficit_count :: "ScenarioIndex list \<Rightarrow> (dbl list \<times> (ScenarioIndex \<Rightarrow> dbl)) list \<Rightarrow> nat \<Rightarrow> nat" where
  "deficit_count combinations steps i =
     length (filter (\<lambda>ts. in_deficit (fst ts ! i) (snd ts (combinations ! i))) steps)"

section \<open>FlowDurationCurveDeviationRecorder\<close>

text \<open>
  The fields that \<^verbatim>\<open>finish()\<close> reads: the buffered flows \<^verbatim>\<open>_data\<close>, the percentiles
  and the two target curves, each with one row per percentile and either one column or
  one column per target scenario.
\<close>

record FlowDurationCurveDeviationRecorder =
  fd_data :: matrix
  percentiles :: "dbl list"
  lower_target_fdc :: matrix
  upper_target_fdc :: matrix

text \<open>
  \<^verbatim>\<open>max(udev, ldev, 0.0)\<close> on C doubles, which Cython compiles to two comparisons:
  a later argument replaces the result when it is greater.
\<close>

definition py_max3 :: "dbl \<Rightarrow> dbl \<Rightarrow> dbl \<Rightarrow> dbl" where
  "py_max3 a b c =
     (let r = (if dgt b a then b else a) in if dgt c r then c else r)"

text \<open>
  The body of the inner loop for one cell: the two relative deviations and their maximum
  with zero; the \<^verbatim>\<open>except ZeroDivisionError\<close> clause turns that exception, and no
  other, into NaN.
\<close>

definition deviation :: "dbl \<Rightarrow> dbl \<Rightarrow> dbl \<Rightarrow> py_error + dbl" where
  "deviation actual ltrgt utrgt =
     (let attempt =
        (case cy_div (dsub actual utrgt) utrgt of
           Inl e \<Rightarrow> Inl e
         | Inr udev \<Rightarrow>
             (case cy_div (dsub ltrgt actual) ltrgt of
                Inl e \<Rightarrow> Inl e
              | Inr ldev \<Rightarrow> Inr (py_max3 udev ldev (Num 0))))
      in case attempt of
           Inl ZeroDivisionError \<Rightarrow> Inr NaN
         | Inl e \<Rightarrow> Inl e
         | Inr d \<Rightarrow> Inr d)"

text \<open>The loop \<^verbatim>\<open>for k in range(ltrgt_fdc.shape[0])\<close> for the scenario combination \<open>i\<close>.\<close>

fun deviation_column ::
  "matrix \<Rightarrow> dbl list \<Rightarrow> dbl list \<Rightarrow> nat \<Rightarrow> nat list \<Rightarrow> matrix \<Rightarrow> py_error + matrix" where
  "deviation_column fdc ltrgt utrgt i [] dev = Inr dev"
| "deviation_column fdc ltrgt utrgt i (k # ks) dev =
     (if length fdc \<le> k \<or> length (fdc ! k) \<le> i \<or> length utrgt \<le> k \<or> length ltrgt \<le> k
      then Inl IndexError
      else case deviation (fdc ! k ! i) (ltrgt ! k) (utrgt ! k) of
        Inl e \<Rightarrow> Inl e
      | Inr d \<Rightarrow>
          (case set_entry dev k i d of
             Inl e \<Rightarrow> Inl e
           | Inr dev' \<Rightarrow> deviation_column fdc ltrgt utrgt i ks dev'))"

text \<open>
  The column of a target curve that a scenario combination uses: a curve with a single
  column serves every combination; otherwise the column is the combination's index in
  the recorder's scenario, or its global id when the recorder has no scenario.
  \<open>sc_index\<close> is \<^verbatim>\<open>self.model.scenarios.get_scenario_index(self.scenario)\<close>, or \<open>None\<close>
  when \<^verbatim>\<open>self.scenario\<close> is \<open>None\<close>.
\<close>

definition target_id :: "nat option \<Rightarrow> ScenarioIndex \<Rightarrow> py_error + nat" where
  "target_id sc_index scenario_index =
     (case sc_index of
        Some s \<Rightarrow> (if s < length (indices scenario_index) then Inr (indices scenario_index ! s)
                   else Inl IndexError)
      | None \<Rightarrow> Inr (global_id scenario_index))"

definition target_column :: "matrix \<Rightarrow> nat \<Rightarrow> py_error + dbl list" where
  "target_column m j =
     (let jt = (if ncols m = 1 then 0 else j) in
      if jt < ncols m then Inr (column m jt) else Inl IndexError)"

text \<open>The loop \<^verbatim>\<open>for i, scenario_index in enumerate(combinations)\<close>.\<close>

fun deviation_loop ::
  "nat option \<Rightarrow> matrix \<Rightarrow> matrix \<Rightarrow> matrix \<Rightarrow> nat \<Rightarrow> ScenarioIndex list \<Rightarrow> matrix
     \<Rightarrow> py_error + matrix" where
  "deviation_loop sc_index fdc ltarget utarget i [] dev = Inr dev"
| "deviation_loop sc_index fdc ltarget utarget i (sc # scs) dev =
     (case target_id sc_index sc of
        Inl e \<Rightarrow> Inl e
      | Inr j \<Rightarrow>
     (case target_column ltarget j of
        Inl e \<Rightarrow> Inl e
      | Inr ltrgt \<Rightarrow>
     (case target_column utarget j of
        Inl e \<Rightarrow> Inl e
      | Inr utrgt \<Rightarrow>
     (case deviation_column fdc ltrgt utrgt i [0..<length ltrgt] dev of
        Inl e \<Rightarrow> Inl e
      | Inr dev' \<Rightarrow> deviation_loop sc_index fdc ltarget utarget (Suc i) scs dev'))))"

text \<open>
  \<^verbatim>\<open>finish()\<close>. The inherited \<^verbatim>\<open>finish()\<close> computes the curve with
  \<^verbatim>\<open>np.percentile(data, percentiles, axis=0)\<close>, a library function taken as the
  parameter \<open>percentile\<close>; the deviations start as \<^verbatim>\<open>np.empty\<close> with one row per row of
  the lower target and one column per scenario combination. The result is
  \<^verbatim>\<open>_fdc_deviations\<close>.
\<close>

definition FDCDeviation_finish ::
  "(matrix \<Rightarrow> dbl list \<Rightarrow> matrix) \<Rightarrow> (nat \<Rightarrow> nat \<Rightarrow> dbl) \<Rightarrow> nat option \<Rightarrow> ScenarioIndex list
     \<Rightarrow> FlowDurationCurveDeviationRecorder \<Rightarrow> py_error + matrix" where
  "FDCDeviation_finish percentile junk sc_index combinations self =
     (let fdc = percentile (fd_data self) (percentiles self);
          dev = empty_array junk (length (lower_target_fdc self)) (length combinations)
      in deviation_loop sc_index fdc (lower_target_fdc self) (upper_target_fdc self)
           0 combinations dev)"

text \<open>
  The deviation of one cell in the words of the specification: NaN for a zero target,
  otherwise the maximum of the two relative deviations and zero.
\<close>

definition deviation_spec :: "dbl \<Rightarrow> dbl \<Rightarrow> dbl \<Rightarrow> dbl" where
  "deviation_spec actual ltrgt utrgt =
     (if utrgt = Num 0 \<or> ltrgt = Num 0 then NaN
      else py_max3 (ddiv (dsub actual utrgt) utrgt) (ddiv (dsub ltrgt actual) ltrgt) (Num 0))"

definition target_of :: "nat option \<Rightarrow> matrix \<Rightarrow> ScenarioIndex \<Rightarrow> nat \<Rightarrow> dbl" where
  "target_of sc_index m sc k =
     m ! k ! (if ncols m = 1 then 0
              else case sc_index of Some s \<Rightarrow> indices sc ! s | None \<Rightarrow> global_id sc)"

section \<open>The class hierarchy and the time-series recorders of parameters\<close>

text \<open>
  The classes of the module, each with its base class as the \<^verbatim>\<open>cdef class\<close> line names
  it, and whether its body defines \<^verbatim>\<open>values\<close>. A call of \<^verbatim>\<open>values()\<close> runs the method
  of the nearest class, from the object's own class upwards, that defines one.
\<close>

datatype recorder_class =
    C_Component | C_Recorder | C_AggregatedRecorder
  | C_NodeRecorder | C_StorageRecorder | C_ParameterRecorder | C_IndexParameterRecorder
  | C_NumpyArrayNodeRecorder | C_FlowDurationCurveRecorder
  | C_SeasonalFlowDurationCurveRecorder | C_FlowDurationCurveDeviationRecorder
  | C_NumpyArrayAbstractStorageRecorder | C_NumpyArrayStorageRecorder
  | C_StorageDurationCurveRecorder | C_NumpyArrayLevelRecorder | C_NumpyArrayAreaRecorder
  | C_NumpyArrayParameterRecorder | C_NumpyArrayIndexParameterRecorder
  | C_RollingWindowParameterRecorder | C_RollingMeanFlowNodeRecorder
  | C_BaseConstantNodeRecorder | C_TotalDeficitNodeRecorder | C_TotalFlowNodeRecorder
  | C_MeanFlowNodeRecorder | C_DeficitFrequencyNodeRecorder
  | C_BaseConstantStorageRecorder | C_MinimumVolumeStorageRecorder
  | C_MinimumThresholdVolumeStorageRecorder | C_AnnualCountIndexParameterRecorder
  | C_BaseConstantParameterRecorder | C_TotalParameterRecorder | C_MeanParameterRecorder

fun base_class :: "recorder_class \<Rightarrow> recorder_class option" where
  "base_class C_Component = None"
| "base_class C_Recorder = Some C_Component"
| "base_class C_AggregatedRecorder = Some C_Recorder"
| "base_class C_NodeRecorder = Some C_Recorder"
| "base_class C_StorageRecorder = Some C_Recorder"
| "base_class C_ParameterRecorder = Some C_Recorder"
| "base_class C_IndexParameterRecorder = Some C_Recorder"
| "base_class C_NumpyArrayNodeRecorder = Some C_NodeRecorder"
| "base_class C_FlowDurationCurveRecorder = Some C_NumpyArrayNodeRecorder"
| "base_class C_SeasonalFlowDurationCurveRecorder = Some C_FlowDurationCurveRecorder"
| "base_class C_FlowDurationCurveDeviationRecorder = Some C_FlowDurationCurveRecorder"
| "base_class C_NumpyArrayAbstractStorageRecorder = Some C_StorageRecorder"
| "base_class C_NumpyArrayStorageRecorder = Some C_NumpyArrayAbstractStorageRecorder"
| "base_class C_StorageDurationCurveRecorder = Some C_NumpyArrayStorageRecorder"
| "base_class C_NumpyArrayLevelRecorder = Some C_NumpyArrayAbstractStorageRecorder"
| "base_class C_NumpyArrayAreaRecorder = Some C_NumpyArrayAbstractStorageRecorder"
| "base_class C_NumpyArrayParameterRecorder = Some C_ParameterRecorder"
| "base_class C_NumpyArrayIndexParameterRecorder = Some C_IndexParameterRecorder"
| "base_class C_RollingWindowParameterRecorder = Some C_ParameterRecorder"
| "base_class C_RollingMeanFlowNodeRecorder = Some C_NodeRecorder"
| "base_class C_BaseConstantNodeRecorder = Some C_NodeRecorder"
| "base_class C_TotalDeficitNodeRecorder = Some C_BaseConstantNodeRecorder"
| "base_class C_TotalFlowNodeRecorder = Some C_BaseConstantNodeRecorder"
| "base_class C_MeanFlowNodeRecorder = Some C_BaseConstantNodeRecorder"
| "base_class C_DeficitFrequencyNodeRecorder = Some C_BaseConstantNodeRecorder"
| "base_class C_BaseConstantStorageRecorder = Some C_StorageRecorder"
| "base_class C_MinimumVolumeStorageRecorder = Some C_BaseConstantStorageRecorder"
| "base_class C_MinimumThresholdVolumeStorageRecorder = Some C_BaseConstantStorageRecorder"
| "base_class C_AnnualCountIndexParameterRecorder = Some C_IndexParameterRecorder"
| "base_class C_BaseConstantParameterRecorder = Some C_ParameterRecorder"
| "base_class C_TotalParameterRecorder = Some C_BaseConstantParameterRecorder"
| "base_class C_MeanParameterRecorder = Some C_BaseConstantParameterRecorder"

definition defines_values :: "recorder_class \<Rightarrow> bool" where
  "defines_values c \<longleftrightarrow> c \<in> set
     [C_Recorder, C_AggregatedRecorder, C_NodeRecorder, C_StorageRecorder,
      C_NumpyArrayNodeRecorder, C_FlowDurationCurveRecorder,
      C_FlowDurationCurveDeviationRecorder, C_NumpyArrayAbstractStorageRecorder,
      C_StorageDurationCurveRecorder, C_NumpyArrayParameterRecorder,
      C_BaseConstantNodeRecorder, C_BaseConstantStorageRecorder,
      C_AnnualCountIndexParameterRecorder, C_BaseConstantParameterRecorder]"

text \<open>
  The class whose \<^verbatim>\<open>values\<close> a call on an object of class \<open>c\<close> runs; no class is more
  than four steps under \<^verbatim>\<open>Recorder\<close>, so five steps upwards reach every base.
\<close>

fun values_owner_within :: "nat \<Rightarrow> recorder_class \<Rightarrow> recorder_class option" where
  "values_owner_within 0 c = (if defines_values c then Some c else None)"
| "values_owner_within (Suc n) c =
     (if defines_values c then Some c
      else case base_class c of None \<Rightarrow> None | Some b \<Rightarrow> values_owner_within n b)"

definition values_owner :: "recorder_class \<Rightarrow> recorder_class option" where
  "values_owner c = values_owner_within 5 c"

text \<open>
  \<^verbatim>\<open>NumpyArrayParameterRecorder\<close>: one row of \<^verbatim>\<open>_data\<close> per timestep, filled by
  \<^verbatim>\<open>after()\<close> with \<^verbatim>\<open>self._param.get_all_values()\<close>; \<^verbatim>\<open>values()\<close> aggregates over
  the time axis.
\<close>

record NumpyArrayParameterRecorder = Recorder +
  pa_temporal_aggregator :: Aggregator
  pa_data :: matrix

definition NumpyArrayParameter_setup ::
  "Recorder \<Rightarrow> Aggregator \<Rightarrow> nat \<Rightarrow> nat \<Rightarrow> NumpyArrayParameterRecorder" where
  "NumpyArrayParameter_setup r agg nts ncomb =
     Recorder.extend r \<lparr>pa_temporal_aggregator = agg, pa_data = zeros nts ncomb\<rparr>"

definition NumpyArrayParameter_reset :: "NumpyArrayParameterRecorder \<Rightarrow> NumpyArrayParameterRecorder" where
  "NumpyArrayParameter_reset self = self\<lparr>pa_data := fill (Num 0) (pa_data self)\<rparr>"

definition NumpyArrayParameter_after ::
  "NumpyArrayParameterRecorder \<Rightarrow> nat \<Rightarrow> dbl list \<Rightarrow> py_error + NumpyArrayParameterRecorder" where
  "NumpyArrayParameter_after self index all_values =
     (case set_row (pa_data self) index all_values of
        Inl e \<Rightarrow> Inl e
      | Inr d \<Rightarrow> Inr (self\<lparr>pa_data := d\<rparr>))"

definition NumpyArrayParameter_values :: "NumpyArrayParameterRecorder \<Rightarrow> py_error + dbl list" where
  "NumpyArrayParameter_values self =
     aggregate_2d (pa_temporal_aggregator self) (pa_data self) 0 (ignore_nan self)"

text \<open>
  \<^verbatim>\<open>NumpyArrayIndexParameterRecorder\<close>: the same with an int32 buffer filled from
  \<^verbatim>\<open>self._param.get_all_indices()\<close>. The constructor builds a temporal aggregator, but
  the class body has no \<^verbatim>\<open>values\<close>; neither has its base \<^verbatim>\<open>IndexParameterRecorder\<close>,
  so \<^verbatim>\<open>values()\<close> is the method of \<^verbatim>\<open>Recorder\<close>.
\<close>

record NumpyArrayIndexParameterRecorder = Recorder +
  ix_temporal_aggregator :: Aggregator
  ix_data :: "int list list"

definition NumpyArrayIndexParameter_setup ::
  "Recorder \<Rightarrow> Aggregator \<Rightarrow> nat \<Rightarrow> nat \<Rightarrow> NumpyArrayIndexParameterRecorder" where
  "NumpyArrayIndexParameter_setup r agg nts ncomb =
     Recorder.extend r \<lparr>ix_temporal_aggregator = agg, ix_data = replicate nts (replicate ncomb 0)\<rparr>"

definition NumpyArrayIndexParameter_reset ::
  "NumpyArrayIndexParameterRecorder \<Rightarrow> NumpyArrayIndexParameterRecorder" where
  "NumpyArrayIndexParameter_reset self = self\<lparr>ix_data := map (map (\<lambda>_. 0)) (ix_data self)\<rparr>"

definition NumpyArrayIndexParameter_after ::
  "NumpyArrayIndexParameterRecorder \<Rightarrow> nat \<Rightarrow> int list \<Rightarrow> py_error + NumpyArrayIndexParameterRecorder" where
  "NumpyArrayIndexParameter_after self index all_indices =
     (case set_row (ix_data self) index all_indices of
        Inl e \<Rightarrow> Inl e
      | Inr d \<Rightarrow> Inr (self\<lparr>ix_data := d\<rparr>))"

definition NumpyArrayIndexParameter_values :: "NumpyArrayIndexParameterRecorder \<Rightarrow> py_error + dbl list" where
  "NumpyArrayIndexParameter_values self = Recorder_values"

text \<open>A run of each, and \<^verbatim>\<open>values()\<close> and \<^verbatim>\<open>aggregated_value()\<close> after it.\<close>

definition NumpyArrayParameter_run ::
  "NumpyArrayParameterRecorder \<Rightarrow> dbl list list \<Rightarrow> py_error + dbl list \<times> dbl" where
  "NumpyArrayParameter_run self steps =
     (case run_after NumpyArrayParameter_after (NumpyArrayParameter_reset self) 0 steps of
        Inl e \<Rightarrow> Inl e
      | Inr s \<Rightarrow>
          (case NumpyArrayParameter_values s of
             Inl e \<Rightarrow> Inl e
           | Inr v \<Rightarrow>
               (case aggregated_value s (Inr v) of Inl e \<Rightarrow> Inl e | Inr a \<Rightarrow> Inr (v, a))))"

definition NumpyArrayIndexParameter_run ::
  "NumpyArrayIndexParameterRecorder \<Rightarrow> int list list \<Rightarrow> py_error + dbl list \<times> dbl" where
  "NumpyArrayIndexParameter_run self steps =
     (case run_after NumpyArrayIndexParameter_after (NumpyArrayIndexParameter_reset self) 0 steps of
        Inl e \<Rightarrow> Inl e
      | Inr s \<Rightarrow>
          (case NumpyArrayIndexParameter_values s of
             Inl e \<Rightarrow> Inl e
           | Inr v \<Rightarrow>
               (case aggregated_value s (Inr v) of Inl e \<Rightarrow> Inl e | Inr a \<Rightarrow> Inr (v, a))))"

section \<open>Properties\<close>

subsection \<open>Exceptions and list helpers\<close>

lemma map_result_Inr: "map_result id (map Inr vs) = Inr vs"
  by (induction vs) simp_all

lemma map_result_total:
  "(\<And>x. x \<in> set xs \<Longrightarrow> f x = Inr (g x)) \<Longrightarrow> map_result f xs = Inr (map g xs)"
  by (induction xs) simp_all

subsection \<open>NaN through the scenario aggregation\<close>






text \<open>
  C2, the part the code keeps and the part it breaks. \<^verbatim>\<open>aggregate_1d\<close> filters the NaN
  entries when asked: the mean of \<open>[1, NaN, 3]\<close> is \<open>2\<close> with \<^verbatim>\<open>ignore_nan\<close> and
  NaN without. \<^verbatim>\<open>aggregate_2d\<close> returns one entry per column without
  \<^verbatim>\<open>ignore_nan\<close>, but with it every call raises \<^verbatim>\<open>ValueError\<close>, whatever the
  aggregator, the matrix and the axis: no vector comes back.
\<close>

theorem aggregate_2d_ignore_nan_raises:
  "aggregate_1d \<lparr>func = Agg_MEAN, user_func = None\<rparr> [Num 1, NaN, Num 3] True = Inr (Num 2) \<and>
   aggregate_1d \<lparr>func = Agg_MEAN, user_func = None\<rparr> [Num 1, NaN, Num 3] False = Inr NaN \<and>
   aggregate_2d \<lparr>func = Agg_SUM, user_func = None\<rparr> [[Num 1, NaN], [Num 3, Num 4]] 0 False
     = Inr [Num 4, NaN] \<and>
   aggregate_2d \<lparr>func = Agg_SUM, user_func = None\<rparr> [[Num 1, NaN], [Num 3, Num 4]] 0 True
     = Inl ValueError \<and>
   aggregate_2d agg m axis True = Inl ValueError"
  by (simp add: aggregate_1d_def aggregate_2d_def reduce_1d_def np_mean_def np_sum_def
      along_axis_def ncols_def column_def)



subsection \<open>AggregatedRecorder\<close>

text \<open>
  C10: when the keywords hold neither \<^verbatim>\<open>agg_func\<close> nor \<^verbatim>\<open>recorder_agg_func\<close>, the
  constructor of \<^verbatim>\<open>AggregatedRecorder\<close> raises \<^verbatim>\<open>ValueError\<close>, although the default
  \<^verbatim>\<open>"mean"\<close> of the base class would have decoded to a valid aggregation.
\<close>

theorem AggregatedRecorder_init_needs_agg_func:
  "kw ''agg_func'' = None \<Longrightarrow> kw ''recorder_agg_func'' = None \<Longrightarrow>
   AggregatedRecorder_init recs kw = Inl ValueError \<and>
   (\<exists>a. Aggregator_init (kw_get kw ''agg_func'' (PyStr ''mean'')) = Inr a \<and> func a = Agg_MEAN)"
  by (simp add: AggregatedRecorder_init_def kw_get_def agg_func_lookup_def lower_def lower_char_def)

theorem AggregatedRecorder_init_needs_agg_func_witness:
  "AggregatedRecorder_init [Inr [Num 1]] Map.empty = Inl ValueError \<and>
   (\<exists>r. Recorder_init Map.empty = Inr r \<and> func (scenario_aggregator r) = Agg_MEAN)"
  using AggregatedRecorder_init_needs_agg_func [of Map.empty "[Inr [Num 1]]"]
  by (simp add: Recorder_init_def kw_get_def agg_func_lookup_def lower_def lower_char_def)

text \<open>The inner loop over distinct indices in range updates exactly those entries.\<close>

lemma update_each_distinct:
  "distinct js \<Longrightarrow> \<forall>j \<in> set js. j < length val \<and> j < length val2 \<Longrightarrow>
   update_each f js val val2 =
     Inr (map (\<lambda>j. if j \<in> set js then f (val ! j) (val2 ! j) else val ! j) [0..<length val])"
proof (induction js arbitrary: val)
  case Nil
  then show ?case by (simp add: map_nth)
next
  case (Cons i js)
  have "update_each f (i # js) val val2 = update_each f js (val[i := f (val ! i) (val2 ! i)]) val2"
    using Cons.prems by simp
  also have "\<dots> = Inr (map (\<lambda>j. if j \<in> set js then f ((val[i := f (val ! i) (val2 ! i)]) ! j) (val2 ! j)
                        else (val[i := f (val ! i) (val2 ! i)]) ! j) [0..<length val])"
    using Cons.IH[of "val[i := f (val ! i) (val2 ! i)]"] Cons.prems by simp
  also have "\<dots> = Inr (map (\<lambda>j. if j \<in> set (i # js) then f (val ! j) (val2 ! j) else val ! j) [0..<length val])"
    using Cons.prems by (auto simp: nth_list_update)
  finally show ?case .
qed

lemma update_each_range:
  assumes "length val = n" "n \<le> length val2"
  shows "update_each f [0..<n] val val2 = Inr (map (\<lambda>j. f (val ! j) (val2 ! j)) [0..<n])"
  using update_each_distinct[of "[0..<n]" val val2 f] assms by simp

lemma fold_recorders_ok:
  assumes "length val = n" "\<forall>v \<in> set vs. n \<le> length v"
  shows "fold_recorders f n val (map Inr vs) =
           Inr (map (\<lambda>i. foldl f (val ! i) (map (\<lambda>v. v ! i) vs)) [0..<n])"
  using assms
proof (induction vs arbitrary: val)
  case Nil
  then show ?case using map_nth[of val] by auto
next
  case (Cons v vs)
  let ?val' = "map (\<lambda>j. f (val ! j) (v ! j)) [0..<n]"
  have step: "update_each f [0..<n] val v = Inr ?val'"
    using Cons.prems by (simp add: update_each_range)
  have "fold_recorders f n val (map Inr (v # vs)) = fold_recorders f n ?val' (map Inr vs)"
    by (simp add: step)
  also have "\<dots> = Inr (map (\<lambda>i. foldl f (?val' ! i) (map (\<lambda>v. v ! i) vs)) [0..<n])"
    using Cons.IH[of ?val'] Cons.prems by simp
  also have "\<dots> = Inr (map (\<lambda>i. foldl f (val ! i) (map (\<lambda>v. v ! i) (v # vs))) [0..<n])"
    by simp
  finally show ?case .
qed

lemma fold_recorders_elementwise:
  assumes "\<forall>v \<in> set vs. n \<le> length v"
  shows "fold_recorders f n (replicate n init) (map Inr vs) = Inr (elementwise f init vs n)"
  using fold_recorders_ok[of "replicate n init" n vs f] assms
  by (simp add: elementwise_def)

text \<open>The folds for max and min pass over NaN entries and return the greatest and the least.\<close>

lemma dlt_not_trans:
  "\<not> isnan b \<Longrightarrow> \<not> dlt c b \<Longrightarrow> \<not> dlt b a \<Longrightarrow> \<not> dlt c a"
  by (cases a; cases b; cases c) auto

lemma dlt_right_not_nan: "dlt a x \<Longrightarrow> \<not> isnan x"
  by (cases a; cases x) auto

lemma dlt_left_not_nan: "dlt x a \<Longrightarrow> \<not> isnan x"
  by (cases a; cases x) auto

lemma dlt_irrefl: "\<not> dlt a a"
  by (cases a) auto

lemma foldl_keep_greater:
  "\<not> isnan a \<Longrightarrow>
   \<not> isnan (foldl keep_greater a xs) \<and>
   (foldl keep_greater a xs = a \<or> foldl keep_greater a xs \<in> set xs) \<and>
   \<not> dlt (foldl keep_greater a xs) a \<and>
   (\<forall>x \<in> set xs. \<not> dlt (foldl keep_greater a xs) x)"
proof (induction xs arbitrary: a)
  case Nil
  then show ?case by (simp add: dlt_irrefl)
next
  case (Cons x xs)
  let ?a = "keep_greater a x"
  let ?r = "foldl keep_greater ?a xs"
  have a': "\<not> isnan ?a" "?a = a \<or> ?a = x" "\<not> dlt ?a a" "\<not> dlt ?a x"
    using Cons.prems
    by (auto simp: keep_greater_def dgt_def dlt_irrefl dest: dlt_right_not_nan)
       (cases a; cases x; auto)+
  from Cons.IH[OF a'(1)]
  have ih: "\<not> isnan ?r" "?r = ?a \<or> ?r \<in> set xs" "\<not> dlt ?r ?a" "\<forall>y \<in> set xs. \<not> dlt ?r y"
    by simp_all
  have "\<not> dlt ?r a" using dlt_not_trans[OF a'(1) ih(3) a'(3)] .
  moreover have "\<not> dlt ?r x" using dlt_not_trans[OF a'(1) ih(3) a'(4)] .
  moreover have "?r = a \<or> ?r \<in> set (x # xs)" using ih(2) a'(2) by auto
  ultimately show ?case using ih by simp
qed

lemma foldl_keep_less:
  "\<not> isnan a \<Longrightarrow>
   \<not> isnan (foldl keep_less a xs) \<and>
   (foldl keep_less a xs = a \<or> foldl keep_less a xs \<in> set xs) \<and>
   \<not> dlt a (foldl keep_less a xs) \<and>
   (\<forall>x \<in> set xs. \<not> dlt x (foldl keep_less a xs))"
proof (induction xs arbitrary: a)
  case Nil
  then show ?case by (simp add: dlt_irrefl)
next
  case (Cons x xs)
  let ?a = "keep_less a x"
  let ?r = "foldl keep_less ?a xs"
  have a': "\<not> isnan ?a" "?a = a \<or> ?a = x" "\<not> dlt a ?a" "\<not> dlt x ?a"
    using Cons.prems
    by (auto simp: keep_less_def dlt_irrefl dest: dlt_left_not_nan)
       (cases a; cases x; auto)+
  from Cons.IH[OF a'(1)]
  have ih: "\<not> isnan ?r" "?r = ?a \<or> ?r \<in> set xs" "\<not> dlt ?a ?r" "\<forall>y \<in> set xs. \<not> dlt y ?r"
    by simp_all
  have "\<not> dlt a ?r" using dlt_not_trans[OF a'(1) a'(3) ih(3)] .
  moreover have "\<not> dlt x ?r" using dlt_not_trans[OF a'(1) a'(4) ih(3)] .
  moreover have "?r = a \<or> ?r \<in> set (x # xs)" using ih(2) a'(2) by auto
  ultimately show ?case using ih by simp
qed

lemma elementwise_greatest:
  "i < n \<Longrightarrow> greatest_of (map (\<lambda>v. v ! i) vs) (elementwise keep_greater NInf vs n ! i)"
  using foldl_keep_greater[of NInf "map (\<lambda>v. v ! i) vs"]
  by (simp add: elementwise_def greatest_of_def)

lemma elementwise_least:
  "i < n \<Longrightarrow> least_of (map (\<lambda>v. v ! i) vs) (elementwise keep_less PInf vs n ! i)"
  using foldl_keep_less[of PInf "map (\<lambda>v. v ! i) vs"]
  by (simp add: elementwise_def least_of_def)

text \<open>
  C7: over a non-empty list of children whose \<^verbatim>\<open>values()\<close> return vectors \<open>vs\<close> with an
  entry for each of the \<open>n\<close> scenario combinations, \<^verbatim>\<open>AggregatedRecorder.values()\<close> is
  the elementwise combination of \<open>vs\<close>: the sum from 0, the product from 1, the sum
  divided by the number of children for the mean, the fold from minus infinity for max,
  whose entry \<open>i\<close> is the greatest of the children's entries \<open>i\<close>, the fold from plus
  infinity for min, whose entry \<open>i\<close> is the least of them, and for a custom function
  its result on the stacked vectors with axis 0.
\<close>

theorem AggregatedRecorder_values_elementwise:
  assumes "vs \<noteq> []" and "\<forall>v \<in> set vs. n \<le> length v" and "recorders self = map Inr vs"
  shows "(recorder_agg_func_code self = Agg_SUM \<longrightarrow>
            AggregatedRecorder_values self n = Inr (elementwise dadd (Num 0) vs n)) \<and>
         (recorder_agg_func_code self = Agg_PRODUCT \<longrightarrow>
            AggregatedRecorder_values self n = Inr (elementwise dmul (Num 1) vs n)) \<and>
         (recorder_agg_func_code self = Agg_MEAN \<longrightarrow>
            AggregatedRecorder_values self n =
              Inr (map (\<lambda>s. ddiv s (Num (of_nat (length vs)))) (elementwise dadd (Num 0) vs n))) \<and>
         (recorder_agg_func_code self = Agg_MAX \<longrightarrow>
            AggregatedRecorder_values self n = Inr (elementwise keep_greater NInf vs n) \<and>
            (\<exists>r. AggregatedRecorder_values self n = Inr r \<and> length r = n \<and>
                 (\<forall>i < n. greatest_of (map (\<lambda>v. v ! i) vs) (r ! i)))) \<and>
         (recorder_agg_func_code self = Agg_MIN \<longrightarrow>
            AggregatedRecorder_values self n = Inr (elementwise keep_less PInf vs n) \<and>
            (\<exists>r. AggregatedRecorder_values self n = Inr r \<and> length r = n \<and>
                 (\<forall>i < n. least_of (map (\<lambda>v. v ! i) vs) (r ! i)))) \<and>
         (recorder_agg_func_code self = Agg_CUSTOM \<longrightarrow> recorder_agg_func self = Some c \<longrightarrow>
            AggregatedRecorder_values self n = Inr (on_matrix c vs 0))"
proof -
  have fold: "fold_recorders f n (replicate n init) (recorders self) = Inr (elementwise f init vs n)"
    for f init
    using assms(2,3) by (simp add: fold_recorders_elementwise)
  have nonempty: "length (recorders self) \<noteq> 0"
    using assms(1,3) by simp
  have mean: "length (recorders self) = length vs"
    using assms(3) by simp
  have stacked: "map_result id (recorders self) = Inr vs"
    using assms(3) by (simp add: map_result_Inr)
  have len: "length (elementwise f init vs n) = n" for f init
    by (simp add: elementwise_def)
  show ?thesis
    using nonempty
    by (simp add: AggregatedRecorder_values_def fold mean stacked len
        elementwise_greatest elementwise_least)
qed

theorem AggregatedRecorder_values_elementwise_witness:
  "AggregatedRecorder_values
     \<lparr>ignore_nan = False, is_objective = NONE, is_constraint = False, epsilon = Num 1,
      scenario_aggregator = \<lparr>func = Agg_MEAN, user_func = None\<rparr>,
      recorder_agg_func = None, recorder_agg_func_code = Agg_SUM,
      recorders = [Inr [Num 1, Num 2], Inr [Num 3, Num 4]]\<rparr> 2 = Inr [Num 4, Num 6] \<and>
   AggregatedRecorder_values
     \<lparr>ignore_nan = False, is_objective = NONE, is_constraint = False, epsilon = Num 1,
      scenario_aggregator = \<lparr>func = Agg_MEAN, user_func = None\<rparr>,
      recorder_agg_func = None, recorder_agg_func_code = Agg_MEAN,
      recorders = [Inr [Num 1, Num 2], Inr [Num 3, Num 4]]\<rparr> 2 = Inr [Num 2, Num 3] \<and>
   AggregatedRecorder_values
     \<lparr>ignore_nan = False, is_objective = NONE, is_constraint = False, epsilon = Num 1,
      scenario_aggregator = \<lparr>func = Agg_MEAN, user_func = None\<rparr>,
      recorder_agg_func = None, recorder_agg_func_code = Agg_MAX,
      recorders = [Inr [Num 1, Num 2], Inr [Num 3, Num 4]]\<rparr> 2 = Inr [Num 3, Num 4] \<and>
   AggregatedRecorder_values
     \<lparr>ignore_nan = False, is_objective = NONE, is_constraint = False, epsilon = Num 1,
      scenario_aggregator = \<lparr>func = Agg_MEAN, user_func = None\<rparr>,
      recorder_agg_func = None, recorder_agg_func_code = Agg_MIN,
      recorders = [Inr [Num 1, Num 2], Inr [Num 3, Num 4]]\<rparr> 2 = Inr [Num 1, Num 2] \<and>
   AggregatedRecorder_values
     \<lparr>ignore_nan = False, is_objective = NONE, is_constraint = False, epsilon = Num 1,
      scenario_aggregator = \<lparr>func = Agg_MEAN, user_func = None\<rparr>,
      recorder_agg_func = None, recorder_agg_func_code = Agg_PRODUCT,
      recorders = [Inr [Num 1, Num 2], Inr [Num 3, Num 4]]\<rparr> 2 = Inr [Num 3, Num 8]"
proof -
  let ?vs = "[[Num 1, Num 2], [Num 3, Num 4]]"
  let ?self = "\<lambda>code. \<lparr>ignore_nan = False, is_objective = NONE, is_constraint = False,
      epsilon = Num 1, scenario_aggregator = \<lparr>func = Agg_MEAN, user_func = None\<rparr>,
      recorder_agg_func = None, recorder_agg_func_code = code,
      recorders = [Inr [Num 1, Num 2], Inr [Num 3, Num 4]]\<rparr>"
  have hyp: "?vs \<noteq> []" "\<forall>v \<in> set ?vs. 2 \<le> length v" "recorders (?self code) = map Inr ?vs" for code
    by simp_all
  have ev: "elementwise dadd (Num 0) ?vs 2 = [Num 4, Num 6]"
    "elementwise dmul (Num 1) ?vs 2 = [Num 3, Num 8]"
    "elementwise keep_greater NInf ?vs 2 = [Num 3, Num 4]"
    "elementwise keep_less PInf ?vs 2 = [Num 1, Num 2]"
    by (simp_all add: elementwise_def numeral_2_eq_2 keep_greater_def keep_less_def dgt_def)
  show ?thesis
    using AggregatedRecorder_values_elementwise[OF hyp, of Agg_SUM]
      AggregatedRecorder_values_elementwise[OF hyp, of Agg_MEAN]
      AggregatedRecorder_values_elementwise[OF hyp, of Agg_MAX]
      AggregatedRecorder_values_elementwise[OF hyp, of Agg_MIN]
      AggregatedRecorder_values_elementwise[OF hyp, of Agg_PRODUCT]
    by (simp add: ev)
qed

subsection \<open>Rolling windows\<close>

lemma slot_range:
  "0 < w \<Longrightarrow> p < min k w \<Longrightarrow> slot w k p < k \<and> k \<le> slot w k p + w \<and> slot w k p mod w = p"
proof (induction k)
  case 0
  then show ?case by simp
next
  case (Suc k)
  show ?case
  proof (cases "p = k mod w")
    case True
    then show ?thesis using Suc.prems by simp
  next
    case False
    have "p < w" using Suc.prems by simp
    have "p \<noteq> k" using False \<open>p < w\<close> by auto
    then have "p < min k w" using Suc.prems by simp
    from Suc.IH[OF Suc.prems(1) this]
    have ih: "slot w k p < k" "k \<le> slot w k p + w" "slot w k p mod w = p" by simp_all
    have "slot w k p + w \<noteq> k"
    proof
      assume "slot w k p + w = k"
      then have "k mod w = slot w k p mod w" by (metis mod_add_self2)
      with ih(3) False show False by simp
    qed
    with ih False show ?thesis by simp
  qed
qed

lemma slot_mset:
  assumes "0 < w"
  shows "mset (map (slot w k) [0..<min k w]) = mset [k - min k w..<k]"
proof -
  let ?n = "min k w"
  let ?xs = "map (slot w k) [0..<?n]"
  have inj: "inj_on (slot w k) (set [0..<?n])"
  proof (rule inj_onI)
    fix a b assume ab: "a \<in> set [0..<?n]" "b \<in> set [0..<?n]" "slot w k a = slot w k b"
    have "a < ?n" "b < ?n" using ab by simp_all
    then have "slot w k a mod w = a" "slot w k b mod w = b"
      using slot_range[OF assms] by blast+
    with ab(3) show "a = b" by metis
  qed
  have dist: "distinct ?xs" using inj by (simp add: distinct_map)
  have sub: "set ?xs \<subseteq> {k - ?n..<k}"
  proof
    fix x assume "x \<in> set ?xs"
    then obtain p where p: "p < ?n" "x = slot w k p" by auto
    from slot_range[OF assms p(1)] p(2) show "x \<in> {k - ?n..<k}" by auto
  qed
  have "card (set ?xs) = ?n" using dist distinct_card[of ?xs] by simp
  moreover have "card {k - ?n..<k} = ?n" by auto
  ultimately have "set ?xs = {k - ?n..<k}"
    using sub by (intro card_subset_eq) auto
  then have "set ?xs = set [k - ?n..<k]" by simp
  moreover have "distinct [k - ?n..<k]" by simp
  ultimately show ?thesis using dist set_eq_iff_mset_eq_distinct by blast
qed

lemma window_samples_nth:
  assumes "Suc t \<le> length samples"
  shows "window_samples w samples t = map ((!) samples) [Suc t - min (Suc t) w..<Suc t]"
proof -
  have "take (Suc t) samples = take (Suc t) (map ((!) samples) [0..<length samples])"
    by (simp only: map_nth)
  also have "\<dots> = map ((!) samples) (take (Suc t) [0..<length samples])"
    by (simp only: take_map)
  also have "take (Suc t) [0..<length samples] = [0..<Suc t]"
    using assms by (simp only: take_upt add_0)
  finally have "take (Suc t) samples = map ((!) samples) [0..<Suc t]" .
  then show ?thesis
    unfolding window_samples_def by (simp add: drop_map drop_upt del: upt_Suc)
qed

lemma slot_window_mset:
  assumes "0 < w" "Suc t \<le> length samples"
  shows "mset (map (\<lambda>p. samples ! slot w (Suc t) p) [0..<min (Suc t) w]) = mset (window_samples w samples t)"
proof -
  have "mset (map (\<lambda>p. samples ! slot w (Suc t) p) [0..<min (Suc t) w])
        = mset (map ((!) samples) (map (slot w (Suc t)) [0..<min (Suc t) w]))"
    by (simp only: map_map comp_def)
  also have "\<dots> = image_mset ((!) samples) (mset (map (slot w (Suc t)) [0..<min (Suc t) w]))"
    by (simp only: mset_map)
  also have "\<dots> = image_mset ((!) samples) (mset [Suc t - min (Suc t) w..<Suc t])"
    by (simp only: slot_mset[OF assms(1)])
  also have "\<dots> = mset (window_samples w samples t)"
    by (simp only: window_samples_nth[OF assms(2)] mset_map)
  finally show ?thesis .
qed

lemma run_after_snoc:
  "run_after f s t (xs @ [x]) =
     (case run_after f s t xs of Inl e \<Rightarrow> Inl e | Inr s' \<Rightarrow> f s' (t + length xs) x)"
  by (induction xs arbitrary: s t) (auto split: sum.splits)

lemma store_values_row:
  "p < length m \<Longrightarrow> i + length vs = length (m ! p) \<Longrightarrow>
   store_values p i vs m = Inr (m[p := take i (m ! p) @ vs])"
proof (induction vs arbitrary: i m)
  case Nil
  then show ?case by simp
next
  case (Cons v vs)
  let ?m' = "m[p := (m ! p)[i := v]]"
  have i: "i < length (m ! p)" using Cons.prems by simp
  have entry: "set_entry m p i v = Inr ?m'"
    using Cons.prems i by (simp add: set_entry_def)
  have "store_values p (Suc i) vs ?m' = Inr (?m'[p := take (Suc i) (?m' ! p) @ vs])"
    using Cons.prems by (intro Cons.IH) simp_all
  also have "take (Suc i) (?m' ! p) = take i (m ! p) @ [v]"
    using Cons.prems i by (simp add: take_Suc_conv_app_nth)
  finally show ?case using entry by simp
qed

lemma reduce_1d_builtin:
  "func agg \<noteq> Agg_CUSTOM \<Longrightarrow> xs \<noteq> [] \<Longrightarrow> \<exists>y. reduce_1d agg xs = Inr y"
  by (cases "func agg"; cases xs) (simp_all add: reduce_1d_def)

lemma map_result_length: "map_result f xs = Inr ys \<Longrightarrow> length ys = length xs"
  by (induction xs arbitrary: ys) (auto split: sum.splits)

lemma map_result_all_ok:
  "(\<And>x. x \<in> set xs \<Longrightarrow> \<exists>y. f x = Inr y) \<Longrightarrow> \<exists>ys. map_result f xs = Inr ys"
proof (induction xs)
  case Nil
  then show ?case by simp
next
  case (Cons x xs)
  obtain y where "f x = Inr y" using Cons.prems by auto
  moreover obtain ys where "map_result f xs = Inr ys" using Cons by auto
  ultimately show ?case by simp
qed

lemma aggregate_2d_shape:
  assumes "shape_preserving agg" "m \<noteq> []"
  shows "\<exists>v. aggregate_2d agg m 0 False = Inr v \<and> length v = ncols m"
proof (cases "func agg = Agg_CUSTOM")
  case True
  then show ?thesis using assms(1) by (auto simp: shape_preserving_def aggregate_2d_def)
next
  case False
  have "\<exists>y. reduce_1d agg (column m j) = Inr y" for j
    using False assms(2) by (intro reduce_1d_builtin) (simp_all add: column_def)
  then obtain ys where ys: "map_result (\<lambda>j. reduce_1d agg (column m j)) [0..<ncols m] = Inr ys"
    using map_result_all_ok[of "[0..<ncols m]" "\<lambda>j. reduce_1d agg (column m j)"] by auto
  then have "length ys = ncols m" using map_result_length by fastforce
  moreover have "aggregate_2d agg m 0 False = Inr ys"
    using False ys by (cases "func agg") (simp_all add: aggregate_2d_def along_axis_def)
  ultimately show ?thesis by simp
qed

lemma RollingWindow_after_step:
  assumes w: "0 < w" and agg: "shape_preserving (rw_temporal_aggregator st)"
    and win: "window st = int w" and pos: "rw_position st = k mod w"
    and mem: "length (rw_memory st) = nts" "\<forall>r \<in> set (rw_memory st). length r = ncomb"
    and dat: "length (rw_data st) = nts" "\<forall>r \<in> set (rw_data st). length r = ncomb"
    and k: "k < nts" and x: "length x = ncomb"
  shows "\<exists>v. aggregate_2d (rw_temporal_aggregator st)
                (take (min (Suc k) w) ((rw_memory st)[k mod w := x])) 0 False = Inr v \<and>
              length v = ncomb \<and>
              RollingWindow_after st k x =
                Inr (st\<lparr>rw_memory := (rw_memory st)[k mod w := x],
                         rw_data := (rw_data st)[k := v],
                         rw_position := Suc k mod w\<rparr>)"
proof -
  let ?p = "k mod w"
  let ?mem = "(rw_memory st)[?p := x]"
  let ?n = "min (Suc k) w"
  have p: "?p < nts" using k w by (meson le_less_trans mod_less_eq_dividend)
  have row: "length (rw_memory st ! ?p) = ncomb" using mem p by simp
  have store: "store_values (rw_position st) 0 x (rw_memory st) = Inr ?mem"
    using store_values_row[of ?p "rw_memory st" 0 x] p mem row x pos by simp
  have n: "(if int k < window st then int k + 1 else window st) = int ?n"
    using win by (simp add: min_def)
  have slice: "slice_to (int ?n) ?mem = take ?n ?mem"
    by (simp add: slice_to_def)
  have rows: "\<forall>r \<in> set ?mem. length r = ncomb"
    using mem x by (metis insertE set_update_subset_insert subsetD)
  have ne: "take ?n ?mem \<noteq> []" using w k mem by auto
  have "ncols (take ?n ?mem) = ncomb"
  proof -
    obtain r rs where rrs: "take ?n ?mem = r # rs" using ne by (cases "take ?n ?mem") auto
    then have "r \<in> set ?mem" by (metis in_set_takeD list.set_intros(1))
    with rows rrs show ?thesis by (simp add: ncols_def)
  qed
  with aggregate_2d_shape[OF agg ne]
  obtain v where v: "aggregate_2d (rw_temporal_aggregator st) (take ?n ?mem) 0 False = Inr v"
    "length v = ncomb" by auto
  have setrow: "set_row (rw_data st) k v = Inr ((rw_data st)[k := v])"
    using dat k v(2) by (simp add: set_row_def)
  have newpos: "(if window st \<le> int (rw_position st + 1) then 0 else rw_position st + 1) = Suc k mod w"
  proof -
    have "k mod w < w" using w by simp
    then show ?thesis using pos win by (auto simp: mod_Suc)
  qed
  have "RollingWindow_after st k x =
          Inr (st\<lparr>rw_memory := ?mem, rw_data := (rw_data st)[k := v], rw_position := Suc k mod w\<rparr>)"
    by (simp only: RollingWindow_after_def Let_def store n slice v(1) setrow newpos sum.case)
  with v show ?thesis by blast
qed

lemma window_samples_snoc:
  "t < length xs \<Longrightarrow> window_samples w (xs @ [x]) t = window_samples w xs t"
  by (simp add: window_samples_def)

lemma RollingWindow_run_invariant:
  assumes w: "0 < w" and agg: "shape_preserving agg"
  shows "length samples \<le> nts \<Longrightarrow> \<forall>v \<in> set samples. length v = ncomb \<Longrightarrow>
     \<exists>st. RollingWindow_run (RollingWindow_setup agg (int w) junk nts ncomb) samples = Inr st \<and>
       window st = int w \<and> rw_temporal_aggregator st = agg \<and>
       rw_position st = length samples mod w \<and>
       length (rw_memory st) = nts \<and> (\<forall>r \<in> set (rw_memory st). length r = ncomb) \<and>
       length (rw_data st) = nts \<and> (\<forall>r \<in> set (rw_data st). length r = ncomb) \<and>
       (\<forall>p < min (length samples) w. rw_memory st ! p = samples ! slot w (length samples) p) \<and>
       (\<forall>t < length samples. \<exists>win. mset win = mset (window_samples w samples t) \<and>
            aggregate_2d agg win 0 False = Inr (rw_data st ! t))"
proof (induction samples rule: rev_induct)
  case Nil
  show ?case
    by (auto simp: RollingWindow_run_def RollingWindow_reset_def RollingWindow_setup_def
        empty_array_def zeros_def fill_def)
next
  case (snoc x xs)
  let ?s0 = "RollingWindow_reset (RollingWindow_setup agg (int w) junk nts ncomb)"
  let ?k = "length xs"
  have k: "?k < nts" and x: "length x = ncomb" using snoc.prems by simp_all
  from snoc.IH snoc.prems obtain st where
    run: "run_after RollingWindow_after ?s0 0 xs = Inr st"
    and win: "window st = int w" and ag: "rw_temporal_aggregator st = agg"
    and pos: "rw_position st = ?k mod w"
    and mem: "length (rw_memory st) = nts" "\<forall>r \<in> set (rw_memory st). length r = ncomb"
    and dat: "length (rw_data st) = nts" "\<forall>r \<in> set (rw_data st). length r = ncomb"
    and slots: "\<forall>p < min ?k w. rw_memory st ! p = xs ! slot w ?k p"
    and hist: "\<forall>t < ?k. \<exists>win. mset win = mset (window_samples w xs t) \<and>
            aggregate_2d agg win 0 False = Inr (rw_data st ! t)"
    by (auto simp: RollingWindow_run_def)
  let ?mem = "(rw_memory st)[?k mod w := x]"
  let ?n = "min (Suc ?k) w"
  from RollingWindow_after_step[OF w _ win pos mem dat k x] agg ag
  obtain v where v: "aggregate_2d agg (take ?n ?mem) 0 False = Inr v" "length v = ncomb"
    and step: "RollingWindow_after st ?k x =
                Inr (st\<lparr>rw_memory := ?mem, rw_data := (rw_data st)[?k := v],
                         rw_position := Suc ?k mod w\<rparr>)"
    by auto
  let ?st' = "st\<lparr>rw_memory := ?mem, rw_data := (rw_data st)[?k := v], rw_position := Suc ?k mod w\<rparr>"
  have run': "RollingWindow_run (RollingWindow_setup agg (int w) junk nts ncomb) (xs @ [x]) = Inr ?st'"
    by (simp add: RollingWindow_run_def run_after_snoc run step)
  have slots': "?mem ! p = (xs @ [x]) ! slot w (Suc ?k) p" if p: "p < ?n" for p
  proof (cases "p = ?k mod w")
    case True
    then show ?thesis using p mem k by simp
  next
    case False
    have "p \<noteq> ?k" using False p by auto
    then have pk: "p < min ?k w" using p by simp
    then have "slot w ?k p < ?k" using slot_range[OF w pk] by simp
    then show ?thesis using False slots pk by (simp add: nth_append)
  qed
  have n_le: "?n \<le> length ?mem" using k mem by simp
  have "take ?n ?mem = map ((!) ?mem) [0..<?n]"
    using n_le by (metis (no_types) map_nth take_map take_upt add_0)
  also have "\<dots> = map (\<lambda>p. (xs @ [x]) ! slot w (Suc ?k) p) [0..<?n]"
    using slots' by simp
  finally have "mset (take ?n ?mem) = mset (window_samples w (xs @ [x]) ?k)"
    using slot_window_mset[OF w, of ?k "xs @ [x]"] by simp
  with v(1) have now: "\<exists>win. mset win = mset (window_samples w (xs @ [x]) ?k) \<and>
            aggregate_2d agg win 0 False = Inr ((rw_data st)[?k := v] ! ?k)"
    using dat k by auto
  have hist': "\<exists>win. mset win = mset (window_samples w (xs @ [x]) t) \<and>
            aggregate_2d agg win 0 False = Inr ((rw_data st)[?k := v] ! t)" if "t < Suc ?k" for t
  proof (cases "t = ?k")
    case True
    then show ?thesis using now by simp
  next
    case False
    then have "t < ?k" using that by simp
    then show ?thesis using hist False by (simp add: window_samples_snoc)
  qed
  have rows_mem: "\<forall>r \<in> set ?mem. length r = ncomb"
    using mem x by (metis insertE set_update_subset_insert subsetD)
  have rows_dat: "\<forall>r \<in> set ((rw_data st)[?k := v]). length r = ncomb"
    using dat v(2) by (metis insertE set_update_subset_insert subsetD)
  show ?case
    apply (rule exI[of _ ?st'])
    using run' win ag mem(1) dat(1) rows_mem rows_dat slots' hist'
    by simp
qed

lemma dadd_swap: "dadd (dadd a x) y = dadd (dadd a y) x"
  by (cases a; cases x; cases y) simp_all

lemma np_sum_mset: "mset xs = mset ys \<Longrightarrow> np_sum xs = np_sum ys"
proof -
  assume eq: "mset xs = mset ys"
  have "fold (\<lambda>x s. dadd s x) xs = fold (\<lambda>x s. dadd s x) ys"
    by (rule fold_multiset_equiv[OF _ eq]) (auto simp: fun_eq_iff dadd_swap)
  then show ?thesis by (simp add: np_sum_def foldl_conv_fold)
qed

lemma np_mean_mset: "mset xs = mset ys \<Longrightarrow> np_mean xs = np_mean ys"
  using np_sum_mset[of xs ys] mset_eq_length[of xs ys] by (simp add: np_mean_def)

lemma store_flow_distinct:
  "distinct js \<Longrightarrow> \<forall>j \<in> set js. j < length m \<and> j < length flow \<and> p < length (m ! j) \<Longrightarrow>
   store_flow p js flow m =
     Inr (map (\<lambda>j. if j \<in> set js then (m ! j)[p := flow ! j] else m ! j) [0..<length m])"
proof (induction js arbitrary: m)
  case Nil
  then show ?case by (simp add: map_nth)
next
  case (Cons i js)
  let ?m' = "m[i := (m ! i)[p := flow ! i]]"
  have entry: "set_entry m i p (flow ! i) = Inr ?m'"
    using Cons.prems by (simp add: set_entry_def)
  have "store_flow p (i # js) flow m = store_flow p js flow ?m'"
    using Cons.prems entry by simp
  also have "\<dots> = Inr (map (\<lambda>j. if j \<in> set js then (?m' ! j)[p := flow ! j] else ?m' ! j) [0..<length m])"
    using Cons.IH[of ?m'] Cons.prems by (simp add: nth_list_update)
  also have "\<dots> = Inr (map (\<lambda>j. if j \<in> set (i # js) then (m ! j)[p := flow ! j] else m ! j) [0..<length m])"
    using Cons.prems by (auto simp: nth_list_update)
  finally show ?case .
qed

lemma store_flow_all:
  assumes "length m \<le> length flow" "\<forall>r \<in> set m. p < length r"
  shows "store_flow p [0..<length m] flow m = Inr (map (\<lambda>j. (m ! j)[p := flow ! j]) [0..<length m])"
  using store_flow_distinct[of "[0..<length m]" m flow p] assms by simp

lemma RollingMean_after_step:
  assumes w: "0 < w" and ts: "timesteps st = int w" and pos: "rm_position st = k mod w"
    and mem: "length (rm_memory st) = ncomb" "\<forall>r \<in> set (rm_memory st). length r = w"
    and dat: "length (rm_data st) = nts" "\<forall>r \<in> set (rm_data st). length r = ncomb"
    and k: "k < nts" and x: "length flow = ncomb"
  shows "RollingMean_after st k flow =
           Inr (st\<lparr>rm_memory := map (\<lambda>j. (rm_memory st ! j)[k mod w := flow ! j]) [0..<ncomb],
                    rm_data := (rm_data st)[k := map (\<lambda>j. np_mean (take (min (Suc k) w)
                                  ((rm_memory st ! j)[k mod w := flow ! j]))) [0..<ncomb]],
                    rm_position := Suc k mod w\<rparr>)"
proof -
  let ?p = "k mod w"
  let ?mem = "map (\<lambda>j. (rm_memory st ! j)[?p := flow ! j]) [0..<ncomb]"
  let ?n = "min (Suc k) w"
  let ?mean = "map (\<lambda>j. np_mean (take ?n ((rm_memory st ! j)[?p := flow ! j]))) [0..<ncomb]"
  have p: "?p < w" using w by simp
  have store: "store_flow (rm_position st) [0..<length (rm_memory st)] flow (rm_memory st) = Inr ?mem"
    using store_flow_all[of "rm_memory st" flow ?p] mem x p pos by simp
  have n: "(if int k < timesteps st then int k + 1 else timesteps st) = int ?n"
    using ts by (simp add: min_def)
  have mean: "map (\<lambda>row. np_mean (slice_to (int ?n) row)) ?mem = ?mean"
    by (simp add: slice_to_def comp_def)
  have setrow: "set_row (rm_data st) k ?mean = Inr ((rm_data st)[k := ?mean])"
    using dat k by (simp add: set_row_def)
  have newpos: "(if timesteps st \<le> int (rm_position st + 1) then 0 else rm_position st + 1) = Suc k mod w"
    using p pos ts by (auto simp: mod_Suc)
  show ?thesis
    by (simp only: RollingMean_after_def Let_def store n mean setrow newpos sum.case)
qed

lemma take_as_map: "n \<le> length xs \<Longrightarrow> take n xs = map ((!) xs) [0..<n]"
  by (metis (no_types) map_nth take_map take_upt add_0)

lemma RollingMean_run_invariant:
  assumes w: "0 < w" and ts0: "timesteps s0 = int w" and pos0: "rm_position s0 = 0"
    and mem0: "length (rm_memory s0) = ncomb" "\<forall>r \<in> set (rm_memory s0). length r = w"
    and dat0: "length (rm_data s0) = nts" "\<forall>r \<in> set (rm_data s0). length r = ncomb"
  shows "length flows \<le> nts \<Longrightarrow> \<forall>v \<in> set flows. length v = ncomb \<Longrightarrow>
     \<exists>st. RollingMean_run s0 flows = Inr st \<and>
       timesteps st = int w \<and> rm_position st = length flows mod w \<and>
       length (rm_memory st) = ncomb \<and> (\<forall>r \<in> set (rm_memory st). length r = w) \<and>
       length (rm_data st) = nts \<and> (\<forall>r \<in> set (rm_data st). length r = ncomb) \<and>
       (\<forall>j < ncomb. \<forall>p < min (length flows) w.
            rm_memory st ! j ! p = flows ! slot w (length flows) p ! j) \<and>
       (\<forall>t < length flows. rm_data st ! t =
            map (\<lambda>j. np_mean (map (\<lambda>r. r ! j) (window_samples w flows t))) [0..<ncomb])"
proof (induction flows rule: rev_induct)
  case Nil
  show ?case
    using ts0 pos0 mem0 dat0 by (simp add: RollingMean_run_def RollingMean_reset_def)
next
  case (snoc x xs)
  let ?k = "length xs"
  have k: "?k < nts" and x: "length x = ncomb" using snoc.prems by simp_all
  from snoc.IH snoc.prems obtain st where
    run: "run_after RollingMean_after (RollingMean_reset s0) 0 xs = Inr st"
    and ts: "timesteps st = int w" and pos: "rm_position st = ?k mod w"
    and mem: "length (rm_memory st) = ncomb" "\<forall>r \<in> set (rm_memory st). length r = w"
    and dat: "length (rm_data st) = nts" "\<forall>r \<in> set (rm_data st). length r = ncomb"
    and slots: "\<forall>j < ncomb. \<forall>p < min ?k w. rm_memory st ! j ! p = xs ! slot w ?k p ! j"
    and hist: "\<forall>t < ?k. rm_data st ! t =
            map (\<lambda>j. np_mean (map (\<lambda>r. r ! j) (window_samples w xs t))) [0..<ncomb]"
    by (auto simp: RollingMean_run_def)
  let ?n = "min (Suc ?k) w"
  let ?row = "\<lambda>j. (rm_memory st ! j)[?k mod w := x ! j]"
  let ?mem = "map ?row [0..<ncomb]"
  let ?mean = "map (\<lambda>j. np_mean (take ?n (?row j))) [0..<ncomb]"
  let ?st' = "st\<lparr>rm_memory := ?mem, rm_data := (rm_data st)[?k := ?mean],
                  rm_position := Suc ?k mod w\<rparr>"
  have step: "RollingMean_after st ?k x = Inr ?st'"
    by (rule RollingMean_after_step[OF w ts pos mem dat k x])
  have run': "RollingMean_run s0 (xs @ [x]) = Inr ?st'"
    by (simp add: RollingMean_run_def run_after_snoc run step)
  have rowlen: "length (rm_memory st ! j) = w" if "j < ncomb" for j
    using mem that by simp
  have slots': "?row j ! p = (xs @ [x]) ! slot w (Suc ?k) p ! j" if j: "j < ncomb" and p: "p < ?n" for j p
  proof (cases "p = ?k mod w")
    case True
    then show ?thesis using p rowlen[OF j] by simp
  next
    case False
    have "p \<noteq> ?k" using False p by auto
    then have pk: "p < min ?k w" using p by simp
    then have "slot w ?k p < ?k" using slot_range[OF w pk] by simp
    then show ?thesis using False slots pk j by (simp add: nth_append)
  qed
  have mean_j: "np_mean (take ?n (?row j)) =
                  np_mean (map (\<lambda>r. r ! j) (window_samples w (xs @ [x]) ?k))" if j: "j < ncomb" for j
  proof -
    have "take ?n (?row j) = map ((!) (?row j)) [0..<?n]"
      using rowlen[OF j] by (intro take_as_map) simp
    also have "\<dots> = map (\<lambda>r. r ! j) (map (\<lambda>p. (xs @ [x]) ! slot w (Suc ?k) p) [0..<?n])"
      using slots'[OF j] by simp
    finally have "mset (take ?n (?row j)) =
        image_mset (\<lambda>r. r ! j) (mset (map (\<lambda>p. (xs @ [x]) ! slot w (Suc ?k) p) [0..<?n]))"
      by (simp only: mset_map)
    also have "\<dots> = mset (map (\<lambda>r. r ! j) (window_samples w (xs @ [x]) ?k))"
      using slot_window_mset[OF w, of ?k "xs @ [x]"] by (simp only: mset_map) simp
    finally show ?thesis by (rule np_mean_mset)
  qed
  have now: "?mean = map (\<lambda>j. np_mean (map (\<lambda>r. r ! j) (window_samples w (xs @ [x]) ?k))) [0..<ncomb]"
    using mean_j by simp
  have hist': "(rm_data st)[?k := ?mean] ! t =
      map (\<lambda>j. np_mean (map (\<lambda>r. r ! j) (window_samples w (xs @ [x]) t))) [0..<ncomb]"
    if "t < Suc ?k" for t
  proof (cases "t = ?k")
    case True
    then show ?thesis using now dat k by simp
  next
    case False
    then have "t < ?k" using that by simp
    then show ?thesis using hist False by (simp add: window_samples_snoc)
  qed
  have rows_mem: "\<forall>r \<in> set ?mem. length r = w"
    using rowlen by auto
  have rows_dat: "\<forall>r \<in> set ((rm_data st)[?k := ?mean]). length r = ncomb"
  proof
    fix r assume "r \<in> set ((rm_data st)[?k := ?mean])"
    then have "r = ?mean \<or> r \<in> set (rm_data st)"
      using set_update_subset_insert[of "rm_data st" ?k ?mean] by auto
    then show "length r = ncomb" using dat by auto
  qed
  have slots'': "\<forall>j < ncomb. \<forall>p < ?n. ?mem ! j ! p = (xs @ [x]) ! slot w (Suc ?k) p ! j"
    using slots' by simp
  show ?case
    apply (rule exI[of _ ?st'])
    using run' ts dat(1) rows_mem rows_dat slots'' hist'
    by simp
qed

lemma length_window_samples:
  "Suc t \<le> length samples \<Longrightarrow> length (window_samples w samples t) = min (Suc t) w"
  by (auto simp: window_samples_def)

lemma RollingMean_setup_shape:
  assumes "RollingMean_setup cfg delta junk nts ncomb = Inr s0"
  shows "0 < timesteps s0 \<and> rm_position s0 = 0 \<and>
         length (rm_memory s0) = ncomb \<and> (\<forall>r \<in> set (rm_memory s0). length r = nat (timesteps s0)) \<and>
         length (rm_data s0) = nts \<and> (\<forall>r \<in> set (rm_data s0). length r = ncomb)"
  using assms
  by (cases cfg) (auto simp: RollingMean_setup_def Let_def zeros_def empty_array_def split: if_splits)

text \<open>
  The first run. In the run that follows \<^verbatim>\<open>setup()\<close> and \<^verbatim>\<open>reset()\<close>, with a window of
  \<open>w > 0\<close> timesteps and a sample per scenario at every timestep, both rolling
  recorders store at timestep \<open>t\<close> the aggregate of the window of the specification:
  the \<open>t + 1\<close> samples seen so far while \<open>t + 1 < w\<close>, the last \<open>w\<close> samples
  afterwards. The parameter recorder hands its aggregator the rows of the window in the
  order of the circular buffer, a permutation of the window; the node recorder stores
  the mean, which does not depend on the order. For the node recorder the window is the
  number of timesteps that \<^verbatim>\<open>setup()\<close> resolved, and the statement is about this first
  run only: its later runs are the subject of the next subsection.
\<close>

theorem rolling_window_partial_then_full:
  assumes "0 < w" and "length samples \<le> nts" and "\<forall>v \<in> set samples. length v = ncomb"
    and "shape_preserving agg"
    and "RollingMean_setup cfg delta junk' nts ncomb = Inr s0" and "timesteps s0 = int w"
  shows "(\<exists>st. RollingWindow_run (RollingWindow_setup agg (int w) junk nts ncomb) samples = Inr st \<and>
            (\<forall>t < length samples. \<exists>win.
               mset win = mset (window_samples w samples t) \<and> length win = min (Suc t) w \<and>
               aggregate_2d agg win 0 False = Inr (rw_data st ! t))) \<and>
         (\<exists>st. RollingMean_run s0 samples = Inr st \<and>
            (\<forall>t < length samples.
               length (window_samples w samples t) = min (Suc t) w \<and>
               rm_data st ! t =
                 map (\<lambda>j. np_mean (map (\<lambda>r. r ! j) (window_samples w samples t))) [0..<ncomb]))"
proof
  from RollingWindow_run_invariant[OF assms(1,4,2,3), of junk]
  obtain st where run: "RollingWindow_run (RollingWindow_setup agg (int w) junk nts ncomb) samples = Inr st"
    and hist: "\<forall>t < length samples. \<exists>win. mset win = mset (window_samples w samples t) \<and>
            aggregate_2d agg win 0 False = Inr (rw_data st ! t)"
    by blast
  have "\<exists>win. mset win = mset (window_samples w samples t) \<and> length win = min (Suc t) w \<and>
               aggregate_2d agg win 0 False = Inr (rw_data st ! t)" if t: "t < length samples" for t
  proof -
    from hist t obtain win where win: "mset win = mset (window_samples w samples t)"
      "aggregate_2d agg win 0 False = Inr (rw_data st ! t)" by blast
    have "length win = length (window_samples w samples t)"
      using win(1) by (rule mset_eq_length)
    then have "length win = min (Suc t) w" using t by (simp add: length_window_samples)
    with win show ?thesis by blast
  qed
  with run show "\<exists>st. RollingWindow_run (RollingWindow_setup agg (int w) junk nts ncomb) samples = Inr st \<and>
            (\<forall>t < length samples. \<exists>win.
               mset win = mset (window_samples w samples t) \<and> length win = min (Suc t) w \<and>
               aggregate_2d agg win 0 False = Inr (rw_data st ! t))"
    by blast
next
  from RollingMean_setup_shape[OF assms(5)] assms(6)
  have s0: "rm_position s0 = 0" "length (rm_memory s0) = ncomb"
    "\<forall>r \<in> set (rm_memory s0). length r = w"
    "length (rm_data s0) = nts" "\<forall>r \<in> set (rm_data s0). length r = ncomb"
    by simp_all
  from RollingMean_run_invariant[OF assms(1,6) s0 assms(2,3)]
  obtain st where "RollingMean_run s0 samples = Inr st"
    "\<forall>t < length samples. rm_data st ! t =
        map (\<lambda>j. np_mean (map (\<lambda>r. r ! j) (window_samples w samples t))) [0..<ncomb]"
    by blast
  then show "\<exists>st. RollingMean_run s0 samples = Inr st \<and>
            (\<forall>t < length samples.
               length (window_samples w samples t) = min (Suc t) w \<and>
               rm_data st ! t =
                 map (\<lambda>j. np_mean (map (\<lambda>r. r ! j) (window_samples w samples t))) [0..<ncomb])"
    by (auto simp: length_window_samples)
qed

text \<open>
  The example of the specification, a window of 3 fed \<open>[1, 2, 3, 4, 5]\<close> with the mean:
  the stored aggregates are \<open>[1, 1.5, 2, 3, 4]\<close>.
\<close>

lemma rolling_window_example:
  "map_sum id rw_data
     (RollingWindow_run (RollingWindow_setup \<lparr>func = Agg_MEAN, user_func = None\<rparr> 3 (\<lambda>_ _. NaN) 5 1)
        [[Num 1], [Num 2], [Num 3], [Num 4], [Num 5]])
   = Inr [[Num 1], [Num (3 / 2)], [Num 2], [Num 3], [Num 4]]"
  by code_simp

lemma rolling_mean_example:
  "map_sum id rm_data
     (RollingMean_run \<lparr>timesteps = 3, days = 0, rm_position = 0, rm_memory = zeros 1 3,
                       rm_data = empty_array (\<lambda>_ _. NaN) 5 1\<rparr>
        [[Num 1], [Num 2], [Num 3], [Num 4], [Num 5]])
   = Inr [[Num 1], [Num (3 / 2)], [Num 2], [Num 3], [Num 4]]"
  by code_simp

theorem rolling_window_partial_then_full_witness:
  "(\<exists>st. RollingWindow_run
            (RollingWindow_setup \<lparr>func = Agg_MEAN, user_func = None\<rparr> 3 (\<lambda>_ _. NaN) 5 1)
            [[Num 1], [Num 2], [Num 3], [Num 4], [Num 5]] = Inr st \<and>
         rw_data st = [[Num 1], [Num (3 / 2)], [Num 2], [Num 3], [Num 4]]) \<and>
   (\<exists>s0 st. RollingMean_setup (3, 0) 1 (\<lambda>_ _. NaN) 5 1 = Inr s0 \<and>
         RollingMean_run s0 [[Num 1], [Num 2], [Num 3], [Num 4], [Num 5]] = Inr st \<and>
         rm_data st = [[Num 1], [Num (3 / 2)], [Num 2], [Num 3], [Num 4]])"
proof -
  let ?smp = "[[Num 1], [Num 2], [Num 3], [Num 4], [Num 5]]"
  let ?agg = "\<lparr>func = Agg_MEAN, user_func = None\<rparr>"
  let ?s0 = "\<lparr>timesteps = 3, days = 0, rm_position = 0, rm_memory = zeros 1 3,
              rm_data = empty_array (\<lambda>_ _. NaN) 5 1\<rparr>"
  have su: "RollingMean_setup (3, 0) 1 (\<lambda>_ _. NaN) 5 1 = Inr ?s0"
    by (simp add: RollingMean_setup_def)
  have "(\<exists>st. RollingWindow_run (RollingWindow_setup ?agg (int 3) (\<lambda>_ _. NaN) 5 1) ?smp = Inr st) \<and>
        (\<exists>st. RollingMean_run ?s0 ?smp = Inr st)"
    using rolling_window_partial_then_full
      [where w = 3 and samples = ?smp and nts = 5 and ncomb = 1 and agg = ?agg
         and cfg = "(3, 0)" and delta = 1 and junk' = "\<lambda>_ _. NaN" and ?s0.0 = ?s0
         and junk = "\<lambda>_ _. NaN"] su
    by (simp add: shape_preserving_def) blast
  then obtain st st' where
    "RollingWindow_run (RollingWindow_setup ?agg 3 (\<lambda>_ _. NaN) 5 1) ?smp = Inr st"
    "RollingMean_run ?s0 ?smp = Inr st'"
    by auto
  then show ?thesis
    using rolling_window_example rolling_mean_example su by simp
qed

subsection \<open>Replaying a run\<close>

text \<open>
  C1 fails for \<^verbatim>\<open>RollingMeanFlowNodeRecorder\<close>. With a window of 2 timesteps, one
  scenario and the flows \<open>1, 2, 3\<close>, the first run after \<^verbatim>\<open>setup()\<close> buffers
  \<open>[1, 1.5, 2.5]\<close>. The class has no \<^verbatim>\<open>reset()\<close>, so the second run starts with the
  cursor at 1 and the flows of the first run in its memory, and buffers \<open>[3, 1.5, 2.5]\<close>:
  its first aggregate is the last flow of the run before. The sibling
  \<^verbatim>\<open>RollingWindowParameterRecorder\<close>, whose \<^verbatim>\<open>reset()\<close> puts the cursor back to 0,
  buffers the same data in both runs.
\<close>

theorem RollingMean_second_run_differs:
  "RollingMean_setup (2, 0) 1 (\<lambda>_ _. NaN) 3 1 =
     Inr \<lparr>timesteps = 2, days = 0, rm_position = 0, rm_memory = zeros 1 2,
          rm_data = empty_array (\<lambda>_ _. NaN) 3 1\<rparr> \<and>
   RollingMean_two_runs
     \<lparr>timesteps = 2, days = 0, rm_position = 0, rm_memory = zeros 1 2,
      rm_data = empty_array (\<lambda>_ _. NaN) 3 1\<rparr>
     [[Num 1], [Num 2], [Num 3]]
   = Inr ([[Num 1], [Num (3 / 2)], [Num (5 / 2)]], [[Num 3], [Num (3 / 2)], [Num (5 / 2)]]) \<and>
   RollingWindow_two_runs
     (RollingWindow_setup \<lparr>func = Agg_MEAN, user_func = None\<rparr> 2 (\<lambda>_ _. NaN) 3 1)
     [[Num 1], [Num 2], [Num 3]]
   = Inr ([[Num 1], [Num (3 / 2)], [Num (5 / 2)]], [[Num 1], [Num (3 / 2)], [Num (5 / 2)]])"
proof -
  have "RollingMean_setup (2, 0) 1 (\<lambda>_ _. NaN) 3 1 =
     Inr \<lparr>timesteps = 2, days = 0, rm_position = 0, rm_memory = zeros 1 2,
          rm_data = empty_array (\<lambda>_ _. NaN) 3 1\<rparr>"
    by (simp add: RollingMean_setup_def)
  moreover have "RollingMean_two_runs
     \<lparr>timesteps = 2, days = 0, rm_position = 0, rm_memory = zeros 1 2,
      rm_data = empty_array (\<lambda>_ _. NaN) 3 1\<rparr>
     [[Num 1], [Num 2], [Num 3]]
   = Inr ([[Num 1], [Num (3 / 2)], [Num (5 / 2)]], [[Num 3], [Num (3 / 2)], [Num (5 / 2)]])"
    by code_simp
  moreover have "RollingWindow_two_runs
     (RollingWindow_setup \<lparr>func = Agg_MEAN, user_func = None\<rparr> 2 (\<lambda>_ _. NaN) 3 1)
     [[Num 1], [Num 2], [Num 3]]
   = Inr ([[Num 1], [Num (3 / 2)], [Num (5 / 2)]], [[Num 1], [Num (3 / 2)], [Num (5 / 2)]])"
    by code_simp
  ultimately show ?thesis by blast
qed

text \<open>
  C4 fails for \<^verbatim>\<open>RollingMeanFlowNodeRecorder\<close> on every run after the first, by the
  defect of C1. With a window of 3 timesteps, one scenario and the flows \<open>1, 2, 3, 4, 5\<close>,
  the first run after \<^verbatim>\<open>setup()\<close> stores \<open>[1, 1.5, 2, 3, 4]\<close>, the aggregates over the
  partial and then the full window. The second run starts with the cursor at 2 and the
  flows \<open>4, 5, 3\<close> in its memory: at timestep 0 it stores 4 where the partial history is
  \<open>[1]\<close>, at timestep 1 it stores 3.5 where the partial history \<open>[1, 2]\<close> has the mean
  1.5. \<^verbatim>\<open>RollingWindowParameterRecorder\<close>, which resets its cursor, stores
  \<open>[1, 1.5, 2, 3, 4]\<close> in both runs.
\<close>

theorem RollingMean_second_run_window_is_stale:
  "RollingMean_setup (3, 0) 1 (\<lambda>_ _. NaN) 5 1 =
     Inr \<lparr>timesteps = 3, days = 0, rm_position = 0, rm_memory = zeros 1 3,
          rm_data = empty_array (\<lambda>_ _. NaN) 5 1\<rparr> \<and>
   RollingMean_two_runs
     \<lparr>timesteps = 3, days = 0, rm_position = 0, rm_memory = zeros 1 3,
      rm_data = empty_array (\<lambda>_ _. NaN) 5 1\<rparr>
     [[Num 1], [Num 2], [Num 3], [Num 4], [Num 5]]
   = Inr ([[Num 1], [Num (3 / 2)], [Num 2], [Num 3], [Num 4]],
          [[Num 4], [Num (7 / 2)], [Num 2], [Num 3], [Num 4]]) \<and>
   map (\<lambda>t. np_mean (map (\<lambda>r. r ! 0)
                 (window_samples 3 [[Num 1], [Num 2], [Num 3], [Num 4], [Num 5]] t))) [0, 1, 2, 3, 4]
   = [Num 1, Num (3 / 2), Num 2, Num 3, Num 4] \<and>
   RollingWindow_two_runs
     (RollingWindow_setup \<lparr>func = Agg_MEAN, user_func = None\<rparr> 3 (\<lambda>_ _. NaN) 5 1)
     [[Num 1], [Num 2], [Num 3], [Num 4], [Num 5]]
   = Inr ([[Num 1], [Num (3 / 2)], [Num 2], [Num 3], [Num 4]],
          [[Num 1], [Num (3 / 2)], [Num 2], [Num 3], [Num 4]])"
proof -
  have "RollingMean_setup (3, 0) 1 (\<lambda>_ _. NaN) 5 1 =
     Inr \<lparr>timesteps = 3, days = 0, rm_position = 0, rm_memory = zeros 1 3,
          rm_data = empty_array (\<lambda>_ _. NaN) 5 1\<rparr>"
    by (simp add: RollingMean_setup_def)
  moreover have "RollingMean_two_runs
     \<lparr>timesteps = 3, days = 0, rm_position = 0, rm_memory = zeros 1 3,
      rm_data = empty_array (\<lambda>_ _. NaN) 5 1\<rparr>
     [[Num 1], [Num 2], [Num 3], [Num 4], [Num 5]]
   = Inr ([[Num 1], [Num (3 / 2)], [Num 2], [Num 3], [Num 4]],
          [[Num 4], [Num (7 / 2)], [Num 2], [Num 3], [Num 4]])"
    by code_simp
  moreover have "map (\<lambda>t. np_mean (map (\<lambda>r. r ! 0)
                 (window_samples 3 [[Num 1], [Num 2], [Num 3], [Num 4], [Num 5]] t))) [0, 1, 2, 3, 4]
   = [Num 1, Num (3 / 2), Num 2, Num 3, Num 4]"
    by code_simp
  moreover have "RollingWindow_two_runs
     (RollingWindow_setup \<lparr>func = Agg_MEAN, user_func = None\<rparr> 3 (\<lambda>_ _. NaN) 5 1)
     [[Num 1], [Num 2], [Num 3], [Num 4], [Num 5]]
   = Inr ([[Num 1], [Num (3 / 2)], [Num 2], [Num 3], [Num 4]],
          [[Num 1], [Num (3 / 2)], [Num 2], [Num 3], [Num 4]])"
    by code_simp
  ultimately show ?thesis by blast
qed

subsection \<open>Annual counts\<close>

lemma count_years_distinct:
  "distinct js \<Longrightarrow> \<forall>j \<in> set js. j < length cmax \<and> j < length cnt \<Longrightarrow>
   count_years thr js cmax cnt =
     Inr (map (\<lambda>i. if i \<in> set js \<and> thr \<le> cmax ! i then cnt ! i + 1 else cnt ! i) [0..<length cnt])"
proof (induction js arbitrary: cnt)
  case Nil
  then show ?case by (simp add: map_nth)
next
  case (Cons i js)
  show ?case
  proof (cases "thr \<le> cmax ! i")
    case True
    let ?cnt = "cnt[i := cnt ! i + 1]"
    have "count_years thr (i # js) cmax cnt = count_years thr js cmax ?cnt"
      using Cons.prems True by simp
    also have "\<dots> = Inr (map (\<lambda>j. if j \<in> set js \<and> thr \<le> cmax ! j then ?cnt ! j + 1 else ?cnt ! j) [0..<length cnt])"
      using Cons.IH[of ?cnt] Cons.prems by simp
    also have "\<dots> = Inr (map (\<lambda>j. if j \<in> set (i # js) \<and> thr \<le> cmax ! j then cnt ! j + 1 else cnt ! j) [0..<length cnt])"
      using Cons.prems True by (auto simp: nth_list_update)
    finally show ?thesis .
  next
    case False
    have "count_years thr (i # js) cmax cnt = count_years thr js cmax cnt"
      using Cons.prems False by simp
    also have "\<dots> = Inr (map (\<lambda>j. if j \<in> set js \<and> thr \<le> cmax ! j then cnt ! j + 1 else cnt ! j) [0..<length cnt])"
      using Cons.IH[of cnt] Cons.prems by simp
    also have "\<dots> = Inr (map (\<lambda>j. if j \<in> set (i # js) \<and> thr \<le> cmax ! j then cnt ! j + 1 else cnt ! j) [0..<length cnt])"
      using False by auto
    finally show ?thesis .
  qed
qed

lemma count_years_all:
  assumes "length cmax = n" "length cnt = n"
  shows "count_years thr [0..<n] cmax cnt =
           Inr (map (\<lambda>i. if thr \<le> cmax ! i then cnt ! i + 1 else cnt ! i) [0..<n])"
  using count_years_distinct[of "[0..<n]" cmax cnt thr] assms by simp

lemma track_max_distinct:
  "distinct (map global_id scs) \<Longrightarrow> \<forall>sc \<in> set scs. global_id sc < length cmax \<Longrightarrow>
   track_max g scs cmax =
     Inr (map (\<lambda>i. case find (\<lambda>sc. global_id sc = i) scs of
                      None \<Rightarrow> cmax ! i | Some sc \<Rightarrow> max (cmax ! i) (g sc)) [0..<length cmax])"
proof (induction scs arbitrary: cmax)
  case Nil
  then show ?case by (simp add: map_nth)
next
  case (Cons sc scs)
  let ?i = "global_id sc"
  let ?cmax = "cmax[?i := max (cmax ! ?i) (g sc)]"
  have notin: "find (\<lambda>s. global_id s = ?i) scs = None"
    using Cons.prems(1) by (force simp: find_None_iff image_iff)
  have "track_max g (sc # scs) cmax = track_max g scs ?cmax"
  proof (cases "cmax ! ?i < g sc")
    case True
    then show ?thesis using Cons.prems by (simp add: max_def)
  next
    case False
    then have "?cmax = cmax" by (simp add: max_def)
    then show ?thesis using Cons.prems False by simp
  qed
  also have "\<dots> = Inr (map (\<lambda>i. case find (\<lambda>sc. global_id sc = i) scs of
                      None \<Rightarrow> ?cmax ! i | Some sc \<Rightarrow> max (?cmax ! i) (g sc)) [0..<length cmax])"
    using Cons.IH[of ?cmax] Cons.prems by simp
  also have "\<dots> = Inr (map (\<lambda>i. case find (\<lambda>s. global_id s = i) (sc # scs) of
                      None \<Rightarrow> cmax ! i | Some sc \<Rightarrow> max (cmax ! i) (g sc)) [0..<length cmax])"
    using Cons.prems notin by (auto simp: nth_list_update split: option.splits)
  finally show ?case .
qed

lemma find_global_id:
  assumes "map global_id scs = [0..<length scs]" "i < length scs"
  shows "find (\<lambda>sc. global_id sc = i) scs = Some (scs ! i)"
proof -
  have gid: "global_id (scs ! j) = j" if "j < length scs" for j
    using assms(1) that by (metis nth_map nth_upt add_0)
  have "\<exists>j. j < length scs \<and> global_id (scs ! j) = i \<and> scs ! i = scs ! j \<and>
            (\<forall>k<j. global_id (scs ! k) \<noteq> i)"
    using gid assms(2) by (intro exI[of _ i]) auto
  then show ?thesis by (simp add: find_Some_iff)
qed

lemma track_max_all:
  assumes "map global_id scs = [0..<length scs]" "length cmax = length scs"
  shows "track_max g scs cmax = Inr (map (\<lambda>i. max (cmax ! i) (g (scs ! i))) [0..<length scs])"
proof -
  have d: "distinct (map global_id scs)" using assms(1) by simp
  have b: "\<forall>sc \<in> set scs. global_id sc < length cmax"
  proof
    fix sc assume "sc \<in> set scs"
    then have "global_id sc \<in> set (map global_id scs)" by simp
    then show "global_id sc < length cmax" using assms by simp
  qed
  show ?thesis
    using track_max_distinct[OF d b, of g] assms find_global_id[OF assms(1)] by simp
qed

lemma AnnualCount_after_scenario:
  assumes ids: "map global_id scs = [0..<length scs]"
    and len: "length (year_count s) = length scs" "length (current_max s) = length scs"
  shows "\<exists>s'. AnnualCount_after scs s idx (y, g) = Inr s' \<and> threshold s' = threshold s \<and>
           length (year_count s') = length scs \<and> length (current_max s') = length scs \<and>
           (\<forall>i < length scs. (year_count s' ! i, current_max s' ! i, current_year s') =
               scenario_after (threshold s) (year_count s ! i, current_max s ! i, current_year s)
                 (y, g (scs ! i)))"
proof -
  let ?n = "length scs"
  let ?cnt = "map (\<lambda>i. if threshold s \<le> current_max s ! i then year_count s ! i + 1
                        else year_count s ! i) [0..<?n]"
  have cy: "count_years (threshold s) [0..<?n] (current_max s) (year_count s) = Inr ?cnt"
    using len by (simp add: count_years_all)
  have tm: "track_max g scs cmax = Inr (map (\<lambda>i. max (cmax ! i) (g (scs ! i))) [0..<?n])"
    if "length cmax = ?n" for cmax
    using track_max_all[OF ids that] .
  have same: "map ((!) xs) [0..<?n] = xs" if "length xs = ?n" for xs :: "int list"
    using that map_nth[of xs] by simp
  consider (same) "y = current_year s"
    | (first) "y \<noteq> current_year s" "current_year s = - 1"
    | (boundary) "y \<noteq> current_year s" "current_year s \<noteq> - 1" by blast
  then show ?thesis
  proof cases
    case same
    then show ?thesis
      using len tm[of "current_max s"] by (simp add: AnnualCount_after_def)
  next
    case first
    then show ?thesis
      using len tm[of "map (\<lambda>_. 0) (current_max s)"]
      by (simp add: AnnualCount_after_def)
  next
    case boundary
    then show ?thesis
      using len cy tm[of "map (\<lambda>_. 0) (current_max s)"]
      by (simp add: AnnualCount_after_def)
  qed
qed

lemma AnnualCount_run_scenario:
  assumes ids: "map global_id scs = [0..<length scs]"
  shows "length (year_count s) = length scs \<Longrightarrow> length (current_max s) = length scs \<Longrightarrow>
     \<exists>s'. run_after (AnnualCount_after scs) s t steps = Inr s' \<and> threshold s' = threshold s \<and>
           length (year_count s') = length scs \<and> length (current_max s') = length scs \<and>
           (\<forall>i < length scs. (year_count s' ! i, current_max s' ! i, current_year s') =
               foldl (scenario_after (threshold s)) (year_count s ! i, current_max s ! i, current_year s)
                 (map (\<lambda>ts. (fst ts, snd ts (scs ! i))) steps))"
proof (induction steps arbitrary: s t)
  case Nil
  then show ?case by simp
next
  case (Cons x steps)
  obtain y g where x: "x = (y, g)" by (cases x)
  from AnnualCount_after_scenario[OF ids Cons.prems, of t y g]
  obtain s1 where s1: "AnnualCount_after scs s t (y, g) = Inr s1" "threshold s1 = threshold s"
    "length (year_count s1) = length scs" "length (current_max s1) = length scs"
    "\<forall>i < length scs. (year_count s1 ! i, current_max s1 ! i, current_year s1) =
               scenario_after (threshold s) (year_count s ! i, current_max s ! i, current_year s)
                 (y, g (scs ! i))"
    by blast
  from Cons.IH[OF s1(3,4), of "Suc t"]
  obtain s' where s': "run_after (AnnualCount_after scs) s1 (Suc t) steps = Inr s'"
    "threshold s' = threshold s1"
    "length (year_count s') = length scs" "length (current_max s') = length scs"
    "\<forall>i < length scs. (year_count s' ! i, current_max s' ! i, current_year s') =
               foldl (scenario_after (threshold s1)) (year_count s1 ! i, current_max s1 ! i, current_year s1)
                 (map (\<lambda>ts. (fst ts, snd ts (scs ! i))) steps)"
    by blast
  show ?case
    apply (rule exI[of _ s'])
    using x s1 s' by simp
qed

lemma years_counted_Cons:
  "years_counted thr ((y, v) # rest) =
     (if thr \<le> foldl max (max 0 v) (map snd (takeWhile (\<lambda>s. fst s = y) rest)) then 1 else 0)
     + years_counted thr (dropWhile (\<lambda>s. fst s = y) rest)"
  by (simp add: years_counted_def tracked_max_def)

lemma scenario_fold_counts:
  "cy \<noteq> - 1 \<Longrightarrow> 0 \<le> m \<Longrightarrow> \<forall>s \<in> set series. fst s \<noteq> - 1 \<Longrightarrow>
   foldl (scenario_after thr) (c, m, cy) series = (c', m', cy') \<Longrightarrow>
   c' + (if thr \<le> m' then 1 else 0) = c + int (years_counted thr ((cy, m) # series))"
proof (induction series arbitrary: c m cy)
  case Nil
  then show ?case by (simp add: years_counted_Cons) (simp add: years_counted_def)
next
  case (Cons x series)
  obtain y v where x: "x = (y, v)" by (cases x)
  show ?case
  proof (cases "y = cy")
    case True
    have "foldl (scenario_after thr) (c, max m v, cy) series = (c', m', cy')"
      using Cons.prems(4) x True by simp
    from Cons.IH[OF Cons.prems(1) _ _ this] Cons.prems
    have "c' + (if thr \<le> m' then 1 else 0) = c + int (years_counted thr ((cy, max m v) # series))"
      by simp
    moreover have "max (max 0 m) v = max 0 (max m v)" by simp
    ultimately show ?thesis
      using x True by (simp only: years_counted_Cons) simp
  next
    case False
    have y: "y \<noteq> - 1" using Cons.prems(3) x by simp
    let ?c = "if thr \<le> m then c + 1 else c"
    have "foldl (scenario_after thr) (?c, max 0 v, y) series = (c', m', cy')"
      using Cons.prems(1,4) x False by simp
    from Cons.IH[OF y _ _ this] Cons.prems
    have "c' + (if thr \<le> m' then 1 else 0) = ?c + int (years_counted thr ((y, max 0 v) # series))"
      by simp
    moreover have "years_counted thr ((y, max 0 v) # series) = years_counted thr ((y, v) # series)"
      by (simp add: years_counted_Cons)
    moreover have "years_counted thr ((cy, m) # (y, v) # series) =
                     (if thr \<le> m then 1 else 0) + years_counted thr ((y, v) # series)"
      using False Cons.prems(2) by (simp add: years_counted_Cons[of thr cy m])
    ultimately show ?thesis using x by simp
  qed
qed

lemma scenario_run_counts:
  assumes "series \<noteq> []" "\<forall>s \<in> set series. fst s \<noteq> - 1"
    and "foldl (scenario_after thr) (0, 0, - 1) series = (c', m', cy')"
  shows "(if thr \<le> m' then c' + 1 else c') = int (years_counted thr series)"
proof -
  obtain y v rest where series: "series = (y, v) # rest"
    using assms(1) by (cases series) auto
  have y: "y \<noteq> - 1" using assms(2) series by simp
  have "foldl (scenario_after thr) (0, max 0 v, y) rest = (c', m', cy')"
    using assms(3) series y by simp
  from scenario_fold_counts[OF y _ _ this] assms(2) series
  have "c' + (if thr \<le> m' then 1 else 0) = int (years_counted thr ((y, max 0 v) # rest))"
    by simp
  also have "years_counted thr ((y, max 0 v) # rest) = years_counted thr series"
    by (simp add: series years_counted_Cons)
  finally show ?thesis by (simp split: if_splits)
qed

text \<open>
  C5: over a run of at least one timestep with the scenario combinations numbered in
  order, \<^verbatim>\<open>values()\<close> after \<^verbatim>\<open>finish()\<close> holds for every scenario the number of years of
  the run, the last one included, whose tracked maximum index met or exceeded the
  threshold. A year ends where the year of the timestep changes; \<open>-1\<close> marks "no year
  yet" and is not the year of a timestep.
\<close>

theorem AnnualCount_run_counts_years:
  assumes "map global_id scs = [0..<length scs]" and "steps \<noteq> []"
    and "\<forall>ts \<in> set steps. fst ts \<noteq> - 1"
  shows "AnnualCount_run thr scs steps =
           Inr (map (\<lambda>i. Num (of_nat (years_counted thr (map (\<lambda>ts. (fst ts, snd ts (scs ! i))) steps))))
                  [0..<length scs])"
proof -
  let ?n = "length scs"
  let ?s0 = "AnnualCount_reset (AnnualCount_setup thr ?n)"
  let ?series = "\<lambda>i. map (\<lambda>ts. (fst ts, snd ts (scs ! i))) steps"
  have s0: "length (year_count ?s0) = ?n" "length (current_max ?s0) = ?n" "threshold ?s0 = thr"
    "current_year ?s0 = - 1" "\<forall>i < ?n. year_count ?s0 ! i = 0 \<and> current_max ?s0 ! i = 0"
    by (simp_all add: AnnualCount_reset_def AnnualCount_setup_def)
  from AnnualCount_run_scenario[OF assms(1) s0(1,2), of 0 steps] s0(3,4,5)
  obtain s where s: "run_after (AnnualCount_after scs) ?s0 0 steps = Inr s" "threshold s = thr"
    "length (year_count s) = ?n" "length (current_max s) = ?n"
    "\<forall>i < ?n. (year_count s ! i, current_max s ! i, current_year s) =
        foldl (scenario_after thr) (0, 0, - 1) (?series i)"
    by auto
  let ?cnt = "map (\<lambda>i. if thr \<le> current_max s ! i then year_count s ! i + 1 else year_count s ! i) [0..<?n]"
  have fin: "AnnualCount_finish scs s = Inr (s\<lparr>year_count := ?cnt\<rparr>)"
    using s(2,3,4) by (simp add: AnnualCount_finish_def count_years_all)
  have each: "(if thr \<le> current_max s ! i then year_count s ! i + 1 else year_count s ! i)
                = int (years_counted thr (?series i))" if i: "i < ?n" for i
  proof -
    have "foldl (scenario_after thr) (0, 0, - 1) (?series i)
            = (year_count s ! i, current_max s ! i, current_year s)"
      using s(5) i by simp
    moreover have "?series i \<noteq> []" using assms(2) by simp
    moreover have "\<forall>p \<in> set (?series i). fst p \<noteq> - 1" using assms(3) by auto
    ultimately show ?thesis by (intro scenario_run_counts) 
  qed
  have "AnnualCount_values (s\<lparr>year_count := ?cnt\<rparr>) =
          map (\<lambda>i. Num (of_nat (years_counted thr (?series i)))) [0..<?n]"
    using each by (simp add: AnnualCount_values_def)
  then show ?thesis
    by (simp add: AnnualCount_run_def s(1) fin)
qed

theorem AnnualCount_run_counts_years_witness:
  "AnnualCount_run 2 [\<lparr>global_id = 0, indices = [0]\<rparr>]
     [(2001, \<lambda>_. 1), (2001, \<lambda>_. 0), (2002, \<lambda>_. 3), (2002, \<lambda>_. 1), (2003, \<lambda>_. 2)]
   = Inr [Num 2]"
  using AnnualCount_run_counts_years
    [of "[\<lparr>global_id = 0, indices = [0]\<rparr>]"
        "[(2001, \<lambda>_. 1), (2001, \<lambda>_. 0), (2002, \<lambda>_. 3), (2002, \<lambda>_. 1), (2003, \<lambda>_. 2)]" 2]
  by (simp add: years_counted_def tracked_max_def)

subsection \<open>Means over the run\<close>

lemma add_flows_distinct:
  "distinct (map global_id scs) \<Longrightarrow>
   \<forall>sc \<in> set scs. global_id sc < length vals \<and> global_id sc < length flow \<Longrightarrow>
   add_flows factor flow scs vals =
     Inr (map (\<lambda>i. case find (\<lambda>sc. global_id sc = i) scs of
                      None \<Rightarrow> vals ! i
                    | Some sc \<Rightarrow> dadd (vals ! i) (dmul (flow ! i) factor)) [0..<length vals])"
proof (induction scs arbitrary: vals)
  case Nil
  then show ?case by (simp add: map_nth)
next
  case (Cons sc scs)
  let ?i = "global_id sc"
  let ?vals = "vals[?i := dadd (vals ! ?i) (dmul (flow ! ?i) factor)]"
  have notin: "find (\<lambda>s. global_id s = ?i) scs = None"
    using Cons.prems(1) by (force simp: find_None_iff image_iff)
  have "add_flows factor flow (sc # scs) vals = add_flows factor flow scs ?vals"
    using Cons.prems by (simp add: Let_def)
  also have "\<dots> = Inr (map (\<lambda>i. case find (\<lambda>sc. global_id sc = i) scs of
                      None \<Rightarrow> ?vals ! i
                    | Some sc \<Rightarrow> dadd (?vals ! i) (dmul (flow ! i) factor)) [0..<length vals])"
    using Cons.IH[of ?vals] Cons.prems by simp
  also have "\<dots> = Inr (map (\<lambda>i. case find (\<lambda>s. global_id s = i) (sc # scs) of
                      None \<Rightarrow> vals ! i
                    | Some sc \<Rightarrow> dadd (vals ! i) (dmul (flow ! i) factor)) [0..<length vals])"
    using Cons.prems notin by (auto simp: nth_list_update split: option.splits)
  finally show ?case .
qed

lemma global_ids_bounded:
  assumes "map global_id scs = [0..<length scs]" "sc \<in> set scs"
  shows "global_id sc < length scs"
proof -
  have "global_id sc \<in> set (map global_id scs)" using assms(2) by simp
  then show ?thesis using assms(1) by simp
qed

lemma add_flows_all:
  assumes ids: "map global_id scs = [0..<length scs]"
    and "length vals = length scs" "length flow = length scs"
  shows "add_flows factor flow scs vals =
           Inr (map (\<lambda>i. dadd (vals ! i) (dmul (flow ! i) factor)) [0..<length scs])"
proof -
  have d: "distinct (map global_id scs)" using ids by simp
  have b: "\<forall>sc \<in> set scs. global_id sc < length vals \<and> global_id sc < length flow"
    using global_ids_bounded[OF ids] assms(2,3) by simp
  show ?thesis
    using add_flows_distinct[OF d b, of factor] assms(2) find_global_id[OF ids] by simp
qed

lemma add_deficits_distinct:
  "distinct (map global_id scs) \<Longrightarrow>
   \<forall>sc \<in> set scs. global_id sc < length vals \<and> global_id sc < length flow \<Longrightarrow>
   add_deficits flow g scs vals =
     Inr (map (\<lambda>i. case find (\<lambda>sc. global_id sc = i) scs of
                      None \<Rightarrow> vals ! i
                    | Some sc \<Rightarrow> if in_deficit (flow ! i) (g sc) then dadd (vals ! i) (Num 1)
                                 else vals ! i) [0..<length vals])"
proof (induction scs arbitrary: vals)
  case Nil
  then show ?case by (simp add: map_nth)
next
  case (Cons sc scs)
  let ?i = "global_id sc"
  let ?vals = "if in_deficit (flow ! ?i) (g sc) then vals[?i := dadd (vals ! ?i) (Num 1)] else vals"
  have notin: "find (\<lambda>s. global_id s = ?i) scs = None"
    using Cons.prems(1) by (force simp: find_None_iff image_iff)
  have len: "length ?vals = length vals" by simp
  have "add_deficits flow g (sc # scs) vals = add_deficits flow g scs ?vals"
    using Cons.prems by (simp add: Let_def)
  also have "\<dots> = Inr (map (\<lambda>i. case find (\<lambda>sc. global_id sc = i) scs of
                      None \<Rightarrow> ?vals ! i
                    | Some sc \<Rightarrow> if in_deficit (flow ! i) (g sc) then dadd (?vals ! i) (Num 1)
                                 else ?vals ! i) [0..<length vals])"
    using Cons.IH[of ?vals] Cons.prems by (simp only: len) (simp split: if_splits)
  also have "\<dots> = Inr (map (\<lambda>i. case find (\<lambda>s. global_id s = i) (sc # scs) of
                      None \<Rightarrow> vals ! i
                    | Some sc \<Rightarrow> if in_deficit (flow ! i) (g sc) then dadd (vals ! i) (Num 1)
                                 else vals ! i) [0..<length vals])"
    using Cons.prems notin by (auto simp: nth_list_update split: option.splits)
  finally show ?case .
qed

lemma add_deficits_all:
  assumes ids: "map global_id scs = [0..<length scs]"
    and "length vals = length scs" "length flow = length scs"
  shows "add_deficits flow g scs vals =
           Inr (map (\<lambda>i. if in_deficit (flow ! i) (g (scs ! i)) then dadd (vals ! i) (Num 1)
                          else vals ! i) [0..<length scs])"
proof -
  have d: "distinct (map global_id scs)" using ids by simp
  have b: "\<forall>sc \<in> set scs. global_id sc < length vals \<and> global_id sc < length flow"
    using global_ids_bounded[OF ids] assms(2,3) by simp
  show ?thesis
    using add_deficits_distinct[OF d b, of g] assms(2) find_global_id[OF ids] by simp
qed

lemma MeanFlow_accumulates:
  assumes ids: "map global_id scs = [0..<length scs]"
  shows "\<forall>f \<in> set flows. length f = length scs \<Longrightarrow>
     run_after (MeanFlow_after factor scs)
        (BaseConstant_reset (BaseConstant_setup (length scs))) 0 flows
     = Inr \<lparr>acc = map (total_flow factor flows) [0..<length scs]\<rparr>"
proof (induction flows rule: rev_induct)
  case Nil
  show ?case
    by (simp add: BaseConstant_reset_def BaseConstant_setup_def total_flow_def map_replicate_const)
next
  case (snoc x xs)
  let ?s = "\<lparr>acc = map (total_flow factor xs) [0..<length scs]\<rparr>"
  have run: "run_after (MeanFlow_after factor scs)
        (BaseConstant_reset (BaseConstant_setup (length scs))) 0 xs = Inr ?s"
    using snoc by simp
  have "add_flows factor x scs (acc ?s) =
          Inr (map (\<lambda>i. dadd (acc ?s ! i) (dmul (x ! i) factor)) [0..<length scs])"
    using snoc.prems by (intro add_flows_all[OF ids]) simp_all
  also have "\<dots> = Inr (map (total_flow factor (xs @ [x])) [0..<length scs])"
    by (simp add: total_flow_def)
  finally have "MeanFlow_after factor scs ?s (length xs) x =
                  Inr \<lparr>acc = map (total_flow factor (xs @ [x])) [0..<length scs]\<rparr>"
    by (simp add: MeanFlow_after_def)
  then show ?case by (simp add: run_after_snoc run)
qed

lemma DeficitFrequency_accumulates:
  assumes ids: "map global_id scs = [0..<length scs]"
  shows "\<forall>ts \<in> set steps. length (fst ts) = length scs \<Longrightarrow>
     run_after (DeficitFrequency_after scs)
        (BaseConstant_reset (BaseConstant_setup (length scs))) 0 steps
     = Inr \<lparr>acc = map (\<lambda>i. Num (of_nat (deficit_count scs steps i))) [0..<length scs]\<rparr>"
proof (induction steps rule: rev_induct)
  case Nil
  show ?case
    by (simp add: BaseConstant_reset_def BaseConstant_setup_def deficit_count_def map_replicate_const)
next
  case (snoc x xs)
  obtain flow g where x: "x = (flow, g)" by (cases x)
  let ?s = "\<lparr>acc = map (\<lambda>i. Num (of_nat (deficit_count scs xs i))) [0..<length scs]\<rparr>"
  have run: "run_after (DeficitFrequency_after scs)
        (BaseConstant_reset (BaseConstant_setup (length scs))) 0 xs = Inr ?s"
    using snoc by simp
  have "add_deficits flow g scs (acc ?s) =
          Inr (map (\<lambda>i. if in_deficit (flow ! i) (g (scs ! i)) then dadd (acc ?s ! i) (Num 1)
                          else acc ?s ! i) [0..<length scs])"
    using snoc.prems x by (intro add_deficits_all[OF ids]) simp_all
  also have "\<dots> = Inr (map (\<lambda>i. Num (of_nat (deficit_count scs (xs @ [x]) i))) [0..<length scs])"
    using x by (simp add: deficit_count_def)
  finally have "DeficitFrequency_after scs ?s (length xs) x =
          Inr \<lparr>acc = map (\<lambda>i. Num (of_nat (deficit_count scs (xs @ [x]) i))) [0..<length scs]\<rparr>"
    using x by (simp add: DeficitFrequency_after_def)
  then show ?case by (simp add: run_after_snoc run)
qed

lemma BaseConstant_finish_divides:
  "BaseConstant_finish (current_index_at_finish n) s =
     s\<lparr>acc := map (\<lambda>v. ddiv v (Num (of_nat n))) (acc s)\<rparr>"
  by (simp add: BaseConstant_finish_def current_index_at_finish_def)

text \<open>
  C6: after a run of \<open>N > 0\<close> timesteps, \<^verbatim>\<open>values()\<close> of the mean-flow recorder is, for
  every scenario, the accumulated sum of \<open>flow \<times> factor\<close> divided by \<open>N\<close>, and
  \<^verbatim>\<open>values()\<close> of the deficit-frequency recorder is the number of timesteps in deficit
  divided by \<open>N\<close>. \<open>N\<close> reaches \<^verbatim>\<open>finish()\<close> as the current index of the model's
  timestepper.
\<close>

theorem mean_recorders_divide_by_timesteps:
  assumes "map global_id scs = [0..<length scs]"
    and "flows \<noteq> []" and "\<forall>f \<in> set flows. length f = length scs"
    and "steps \<noteq> []" and "\<forall>ts \<in> set steps. length (fst ts) = length scs"
  shows "MeanFlow_run factor scs flows =
           Inr (map (\<lambda>i. ddiv (total_flow factor flows i) (Num (of_nat (length flows))))
                  [0..<length scs]) \<and>
         DeficitFrequency_run scs steps =
           Inr (map (\<lambda>i. ddiv (Num (of_nat (deficit_count scs steps i))) (Num (of_nat (length steps))))
                  [0..<length scs])"
  using assms
  by (simp add: MeanFlow_run_def DeficitFrequency_run_def MeanFlow_accumulates
      DeficitFrequency_accumulates BaseConstant_finish_divides BaseConstant_values_def comp_def)

theorem mean_recorders_divide_by_timesteps_witness:
  "MeanFlow_run (Num 1) [\<lparr>global_id = 0, indices = [0]\<rparr>] [[Num 1], [Num 3]] = Inr [Num 2] \<and>
   DeficitFrequency_run [\<lparr>global_id = 0, indices = [0]\<rparr>]
     [([Num 1], \<lambda>_. Num 1), ([Num 3], \<lambda>_. Num 5), ([Num 2], \<lambda>_. Num 2), ([Num 0], \<lambda>_. Num 1)]
     = Inr [Num (1 / 2)]"
  using mean_recorders_divide_by_timesteps
    [of "[\<lparr>global_id = 0, indices = [0]\<rparr>]" "[[Num 1], [Num 3]]"
        "[([Num 1], \<lambda>_. Num 1), ([Num 3], \<lambda>_. Num 5), ([Num 2], \<lambda>_. Num 2), ([Num 0], \<lambda>_. Num 1)]"
        "Num 1"]
  by (simp add: total_flow_def deficit_count_def in_deficit_def dgt_def dsub_def)

subsection \<open>Deviation from the target curves\<close>

lemma deviation_eq_spec: "deviation a l u = Inr (deviation_spec a l u)"
  by (simp add: deviation_def deviation_spec_def cy_div_def)

lemma deviation_column_distinct:
  "distinct ks \<Longrightarrow>
   \<forall>k \<in> set ks. k < length fdc \<and> i < length (fdc ! k) \<and> k < length u \<and> k < length l \<and>
                  k < length dev \<and> i < length (dev ! k) \<Longrightarrow>
   deviation_column fdc l u i ks dev =
     Inr (map (\<lambda>k. if k \<in> set ks then (dev ! k)[i := deviation_spec (fdc ! k ! i) (l ! k) (u ! k)]
                    else dev ! k) [0..<length dev])"
proof (induction ks arbitrary: dev)
  case Nil
  then show ?case by (simp add: map_nth)
next
  case (Cons k ks)
  let ?dev = "dev[k := (dev ! k)[i := deviation_spec (fdc ! k ! i) (l ! k) (u ! k)]]"
  have "deviation_column fdc l u i (k # ks) dev = deviation_column fdc l u i ks ?dev"
    using Cons.prems by (simp add: deviation_eq_spec set_entry_def)
  also have "\<dots> = Inr (map (\<lambda>k. if k \<in> set ks
                      then (?dev ! k)[i := deviation_spec (fdc ! k ! i) (l ! k) (u ! k)]
                      else ?dev ! k) [0..<length dev])"
    using Cons.IH[of ?dev] Cons.prems by (simp add: nth_list_update)
  also have "\<dots> = Inr (map (\<lambda>j. if j \<in> set (k # ks)
                      then (dev ! j)[i := deviation_spec (fdc ! j ! i) (l ! j) (u ! j)]
                      else dev ! j) [0..<length dev])"
    using Cons.prems by (auto simp: nth_list_update)
  finally show ?case .
qed

lemma ncols_rect: "m \<noteq> [] \<Longrightarrow> \<forall>r \<in> set m. length r = c \<Longrightarrow> ncols m = c"
  by (cases m) (simp_all add: ncols_def)

lemma target_column_ok:
  assumes "m \<noteq> []" "\<forall>r \<in> set m. length r = c" "target_id sc_index sc = Inr j" "c = 1 \<or> j < c"
  shows "\<exists>col. target_column m j = Inr col \<and> length col = length m \<and>
           (\<forall>k < length m. col ! k = target_of sc_index m sc k)"
proof -
  have c: "ncols m = c" using assms(1,2) by (rule ncols_rect)
  let ?jt = "if c = 1 then 0 else j"
  have jt: "?jt < c" using assms(4) by auto
  have j: "(case sc_index of Some s \<Rightarrow> indices sc ! s | None \<Rightarrow> global_id sc) = j"
    using assms(3) by (auto simp: target_id_def split: option.splits if_splits)
  have "target_column m j = Inr (column m ?jt)"
    using c jt by (simp add: target_column_def)
  moreover have "\<forall>k < length m. column m ?jt ! k = target_of sc_index m sc k"
    using c j by (simp add: column_def target_of_def)
  ultimately show ?thesis by (simp add: column_def)
qed

lemma deviation_loop_cells:
  assumes lo: "ltarget \<noteq> []" "\<forall>r \<in> set ltarget. length r = ml"
    and up: "length utarget = length ltarget" "\<forall>r \<in> set utarget. length r = mu"
    and fdc: "length fdc = length ltarget" "\<forall>r \<in> set fdc. length r = n"
  shows "\<forall>sc \<in> set scs. \<exists>j. target_id sc_index sc = Inr j \<and> (ml = 1 \<or> j < ml) \<and> (mu = 1 \<or> j < mu) \<Longrightarrow>
     length dev = length ltarget \<Longrightarrow> \<forall>r \<in> set dev. length r = n \<Longrightarrow> i0 + length scs \<le> n \<Longrightarrow>
     deviation_loop sc_index fdc ltarget utarget i0 scs dev =
       Inr (map (\<lambda>k. map (\<lambda>i. if i0 \<le> i \<and> i < i0 + length scs
                              then deviation_spec (fdc ! k ! i)
                                     (target_of sc_index ltarget (scs ! (i - i0)) k)
                                     (target_of sc_index utarget (scs ! (i - i0)) k)
                              else dev ! k ! i) [0..<n]) [0..<length ltarget])"
proof (induction scs arbitrary: i0 dev)
  case Nil
  have "map (\<lambda>k. map (\<lambda>i. dev ! k ! i) [0..<n]) [0..<length ltarget] = dev"
  proof (rule nth_equalityI)
    show "length (map (\<lambda>k. map (\<lambda>i. dev ! k ! i) [0..<n]) [0..<length ltarget]) = length dev"
      using Nil by simp
  next
    fix k assume "k < length (map (\<lambda>k. map (\<lambda>i. dev ! k ! i) [0..<n]) [0..<length ltarget])"
    then have k: "k < length dev" using Nil by simp
    then have "length (dev ! k) = n" using Nil by simp
    then have "map ((!) (dev ! k)) [0..<n] = dev ! k" using map_nth[of "dev ! k"] by simp
    then show "map (\<lambda>k. map (\<lambda>i. dev ! k ! i) [0..<n]) [0..<length ltarget] ! k = dev ! k"
      using k Nil by simp
  qed
  moreover have cond: "(if i0 \<le> i \<and> i < i0 then a else b) = b" for i and a b :: dbl by auto
  ultimately show ?case by (simp add: cond)
next
  case (Cons sc scs)
  let ?np = "length ltarget"
  from Cons.prems(1) obtain j where j: "target_id sc_index sc = Inr j"
    "ml = 1 \<or> j < ml" "mu = 1 \<or> j < mu" by auto
  from target_column_ok[OF lo j(1,2)] obtain lcol where lcol:
    "target_column ltarget j = Inr lcol" "length lcol = ?np"
    "\<forall>k < ?np. lcol ! k = target_of sc_index ltarget sc k" by blast
  have "utarget \<noteq> []" using up(1) lo(1) by auto
  from target_column_ok[OF this up(2) j(1,3)] up(1) obtain ucol where ucol:
    "target_column utarget j = Inr ucol" "length ucol = ?np"
    "\<forall>k < ?np. ucol ! k = target_of sc_index utarget sc k" by auto
  have i0: "i0 < n" using Cons.prems(4) by simp
  let ?dev = "map (\<lambda>k. (dev ! k)[i0 := deviation_spec (fdc ! k ! i0) (lcol ! k) (ucol ! k)]) [0..<?np]"
  have col: "deviation_column fdc lcol ucol i0 [0..<length lcol] dev = Inr ?dev"
    using deviation_column_distinct[of "[0..<?np]" fdc i0 ucol lcol dev]
      lcol(2) ucol(2) fdc Cons.prems(2,3) i0 by simp
  have dev_len: "length ?dev = ?np" by simp
  have dev_rows: "\<forall>r \<in> set ?dev. length r = n" using Cons.prems(2,3) by auto
  have rest: "\<forall>sc \<in> set scs. \<exists>j. target_id sc_index sc = Inr j \<and> (ml = 1 \<or> j < ml) \<and> (mu = 1 \<or> j < mu)"
    using Cons.prems(1) by simp
  have "deviation_loop sc_index fdc ltarget utarget i0 (sc # scs) dev
          = deviation_loop sc_index fdc ltarget utarget (Suc i0) scs ?dev"
    by (simp add: j(1) lcol(1) ucol(1) col)
  also have "\<dots> = Inr (map (\<lambda>k. map (\<lambda>i. if Suc i0 \<le> i \<and> i < Suc i0 + length scs
                              then deviation_spec (fdc ! k ! i)
                                     (target_of sc_index ltarget (scs ! (i - Suc i0)) k)
                                     (target_of sc_index utarget (scs ! (i - Suc i0)) k)
                              else ?dev ! k ! i) [0..<n]) [0..<?np])"
    using Cons.prems(4) by (intro Cons.IH[OF rest dev_len dev_rows]) simp
  also have "\<dots> = Inr (map (\<lambda>k. map (\<lambda>i. if i0 \<le> i \<and> i < i0 + length (sc # scs)
                              then deviation_spec (fdc ! k ! i)
                                     (target_of sc_index ltarget ((sc # scs) ! (i - i0)) k)
                                     (target_of sc_index utarget ((sc # scs) ! (i - i0)) k)
                              else dev ! k ! i) [0..<n]) [0..<?np])"
  proof -
    have "(if Suc i0 \<le> i \<and> i < Suc i0 + length scs
            then deviation_spec (fdc ! k ! i)
                   (target_of sc_index ltarget (scs ! (i - Suc i0)) k)
                   (target_of sc_index utarget (scs ! (i - Suc i0)) k)
            else ?dev ! k ! i)
          = (if i0 \<le> i \<and> i < i0 + length (sc # scs)
            then deviation_spec (fdc ! k ! i)
                   (target_of sc_index ltarget ((sc # scs) ! (i - i0)) k)
                   (target_of sc_index utarget ((sc # scs) ! (i - i0)) k)
            else dev ! k ! i)" if k: "k < ?np" and i: "i < n" for k i
    proof (cases "i = i0")
      case True
      have "length (dev ! k) = n" using Cons.prems(2,3) k by simp
      then show ?thesis using True k i lcol(3) ucol(3) by simp
    next
      case False
      then have "(i - i0) = Suc (i - Suc i0)" if "i0 \<le> i" using that by simp
      then show ?thesis using False k by (auto simp: nth_list_update)
    qed
    then show ?thesis by simp
  qed
  finally show ?case .
qed

lemma deviation_spec_between:
  "0 < l \<Longrightarrow> l \<le> a \<Longrightarrow> a \<le> u \<Longrightarrow> deviation_spec (Num a) (Num l) (Num u) = Num 0"
proof -
  assume l: "0 < l" and la: "l \<le> a" and au: "a \<le> u"
  have u: "0 < u" using l la au by linarith
  have "(a - u) / u \<le> 0" using u au by (simp add: divide_le_0_iff)
  moreover have "(l - a) / l \<le> 0" using l la by (simp add: divide_le_0_iff)
  ultimately show ?thesis
    using l u by (auto simp: deviation_spec_def py_max3_def dsub_def dgt_def Let_def)
qed

text \<open>
  What \<^verbatim>\<open>finish()\<close> computes. It fills every cell of the deviations, one row per
  percentile and one column per scenario combination, without raising: a cell over a
  zero target is NaN, every other cell is the maximum, as the code takes it, of
  \<open>(actual - upper) / upper\<close>, \<open>(lower - actual) / lower\<close> and 0. For finite values
  that maximum is zero when the actual value lies between two positive targets. The
  shapes are those that the constructor and \<^verbatim>\<open>setup()\<close> check; the curve has one row
  per percentile.
\<close>

theorem FDCDeviation_finish_cells:
  assumes "lower_target_fdc self \<noteq> []"
    and "\<forall>r \<in> set (lower_target_fdc self). length r = ml"
    and "length (upper_target_fdc self) = length (lower_target_fdc self)"
    and "\<forall>r \<in> set (upper_target_fdc self). length r = mu"
    and "length (percentile (fd_data self) (percentiles self)) = length (lower_target_fdc self)"
    and "\<forall>r \<in> set (percentile (fd_data self) (percentiles self)). length r = length scs"
    and "\<forall>sc \<in> set scs. \<exists>j. target_id sc_index sc = Inr j \<and> (ml = 1 \<or> j < ml) \<and> (mu = 1 \<or> j < mu)"
  shows "(\<exists>dev. FDCDeviation_finish percentile junk sc_index scs self = Inr dev \<and>
            length dev = length (lower_target_fdc self) \<and>
            (\<forall>k < length (lower_target_fdc self). length (dev ! k) = length scs \<and>
               (\<forall>i < length scs.
                  dev ! k ! i =
                    deviation_spec (percentile (fd_data self) (percentiles self) ! k ! i)
                      (target_of sc_index (lower_target_fdc self) (scs ! i) k)
                      (target_of sc_index (upper_target_fdc self) (scs ! i) k)))) \<and>
         (0 < l \<and> l \<le> a \<and> a \<le> u \<longrightarrow> deviation_spec (Num a) (Num l) (Num u) = Num 0)"
proof -
  let ?fdc = "percentile (fd_data self) (percentiles self)"
  let ?np = "length (lower_target_fdc self)"
  let ?n = "length scs"
  let ?dev0 = "empty_array junk ?np ?n"
  have d0: "length ?dev0 = ?np" "\<forall>r \<in> set ?dev0. length r = ?n"
    by (auto simp: empty_array_def)
  have "deviation_loop sc_index ?fdc (lower_target_fdc self) (upper_target_fdc self) 0 scs ?dev0 =
       Inr (map (\<lambda>k. map (\<lambda>i. if 0 \<le> i \<and> i < 0 + ?n
                              then deviation_spec (?fdc ! k ! i)
                                     (target_of sc_index (lower_target_fdc self) (scs ! (i - 0)) k)
                                     (target_of sc_index (upper_target_fdc self) (scs ! (i - 0)) k)
                              else ?dev0 ! k ! i) [0..<?n]) [0..<?np])"
    by (rule deviation_loop_cells[OF assms(1-6) assms(7) d0]) simp
  then have "FDCDeviation_finish percentile junk sc_index scs self =
       Inr (map (\<lambda>k. map (\<lambda>i. deviation_spec (?fdc ! k ! i)
                                     (target_of sc_index (lower_target_fdc self) (scs ! i) k)
                                     (target_of sc_index (upper_target_fdc self) (scs ! i) k))
                        [0..<?n]) [0..<?np])"
    by (simp add: FDCDeviation_finish_def Let_def cong: map_cong)
  then show ?thesis using deviation_spec_between[of l a u] by simp
qed

theorem FDCDeviation_finish_cells_witness:
  "FDCDeviation_finish (\<lambda>_ _. [[Num 10], [Num 15], [Num 5], [Num 7]]) (\<lambda>_ _. NaN) None
     [\<lparr>global_id = 0, indices = [0]\<rparr>]
     \<lparr>fd_data = [[Num 7], [Num 5], [Num 10], [Num 15]], percentiles = [Num 20, Num 40, Num 60, Num 80],
      lower_target_fdc = [[Num 8], [Num 8], [Num 8], [Num 8]],
      upper_target_fdc = [[Num 12], [Num 12], [Num 12], [Num 0]]\<rparr>
   = Inr [[Num 0], [Num (1 / 4)], [Num (3 / 8)], [NaN]] \<and>
   deviation_spec (Num 10) (Num 8) (Num 12) = Num 0"
proof -
  let ?self = "\<lparr>fd_data = [[Num 7], [Num 5], [Num 10], [Num 15]],
      percentiles = [Num 20, Num 40, Num 60, Num 80],
      lower_target_fdc = [[Num 8], [Num 8], [Num 8], [Num 8]],
      upper_target_fdc = [[Num 12], [Num 12], [Num 12], [Num 0]]\<rparr>"
  have "deviation_spec (Num 10) (Num 8) (Num 12) = Num 0"
    using FDCDeviation_finish_cells
      [where self = ?self and ml = 1 and mu = 1 and sc_index = None
         and scs = "[\<lparr>global_id = 0, indices = [0]\<rparr>]"
         and percentile = "\<lambda>_ _. [[Num 10], [Num 15], [Num 5], [Num 7]]"
         and l = 8 and a = 10 and u = 12]
    by (simp add: target_id_def)
  moreover have "FDCDeviation_finish (\<lambda>_ _. [[Num 10], [Num 15], [Num 5], [Num 7]]) (\<lambda>_ _. NaN) None
     [\<lparr>global_id = 0, indices = [0]\<rparr>] ?self
   = Inr [[Num 0], [Num (1 / 4)], [Num (3 / 8)], [NaN]]"
    by code_simp
  ultimately show ?thesis by simp
qed

text \<open>
  C3 fails where a target is infinite. With the lower target 8 and the upper target
  \<open>+inf\<close>, a curve without an upper limit, the actual value 10 lies between the two
  targets, and the class's documentation and the comment above the maximum say that the
  deviation is then zero. The code computes \<open>(10 - inf) / inf\<close>, which is NaN, and
  \<^verbatim>\<open>max(udev, ldev, 0.0)\<close> keeps its first argument when it is NaN, since no comparison
  with NaN holds: the cell is NaN. With finite positive targets the cells are those of
  the specification: 0 for 10 between 8 and 12, 0.25 for 15, 0.375 for 5, and NaN over a
  zero target.
\<close>

theorem FDCDeviation_infinite_target_is_nan:
  "dlt (Num 8) (Num 10) \<and> dlt (Num 10) PInf \<and>
   deviation (Num 10) (Num 8) PInf = Inr NaN \<and>
   FDCDeviation_finish (\<lambda>_ _. [[Num 10]]) (\<lambda>_ _. Num 0) None
     [\<lparr>global_id = 0, indices = [0]\<rparr>]
     \<lparr>fd_data = [[Num 10]], percentiles = [Num 50],
      lower_target_fdc = [[Num 8]], upper_target_fdc = [[PInf]]\<rparr>
   = Inr [[NaN]] \<and>
   deviation (Num 10) (Num 8) (Num 12) = Inr (Num 0) \<and>
   deviation (Num 15) (Num 8) (Num 12) = Inr (Num (1 / 4)) \<and>
   deviation (Num 5) (Num 8) (Num 12) = Inr (Num (3 / 8)) \<and>
   deviation (Num 7) (Num 8) (Num 0) = Inr NaN"
proof -
  have "FDCDeviation_finish (\<lambda>_ _. [[Num 10]]) (\<lambda>_ _. Num 0) None
     [\<lparr>global_id = 0, indices = [0]\<rparr>]
     \<lparr>fd_data = [[Num 10]], percentiles = [Num 50],
      lower_target_fdc = [[Num 8]], upper_target_fdc = [[PInf]]\<rparr>
   = Inr [[NaN]]"
    by code_simp
  then show ?thesis
    by (simp add: deviation_def cy_div_def dsub_def py_max3_def dgt_def)
qed

subsection \<open>values() of the time-series recorders\<close>

text \<open>
  C8 fails for \<^verbatim>\<open>NumpyArrayIndexParameterRecorder\<close>: its \<^verbatim>\<open>values()\<close> is the method of
  \<^verbatim>\<open>Recorder\<close>, which raises \<^verbatim>\<open>NotImplementedError\<close> in every state, and so does
  \<^verbatim>\<open>aggregated_value()\<close>. On a model of two timesteps and one scenario, with the indices
  1 and 3 recorded, the run ends in that exception, while the sibling
  \<^verbatim>\<open>NumpyArrayParameterRecorder\<close> fed the values 1 and 3 returns the vector \<open>[2]\<close> and
  the scalar \<open>2\<close>.
\<close>

theorem NumpyArrayIndexParameterRecorder_values_raises:
  "values_owner C_NumpyArrayIndexParameterRecorder = Some C_Recorder \<and>
   values_owner C_NumpyArrayParameterRecorder = Some C_NumpyArrayParameterRecorder \<and>
   NumpyArrayIndexParameter_values self = Inl NotImplementedError \<and>
   aggregated_value self (NumpyArrayIndexParameter_values self) = Inl NotImplementedError \<and>
   NumpyArrayIndexParameter_run
     (NumpyArrayIndexParameter_setup
        \<lparr>ignore_nan = False, is_objective = NONE, is_constraint = False, epsilon = Num 1,
         scenario_aggregator = \<lparr>func = Agg_MEAN, user_func = None\<rparr>\<rparr>
        \<lparr>func = Agg_MEAN, user_func = None\<rparr> 2 1)
     [[1], [3]] = Inl NotImplementedError \<and>
   NumpyArrayParameter_run
     (NumpyArrayParameter_setup
        \<lparr>ignore_nan = False, is_objective = NONE, is_constraint = False, epsilon = Num 1,
         scenario_aggregator = \<lparr>func = Agg_MEAN, user_func = None\<rparr>\<rparr>
        \<lparr>func = Agg_MEAN, user_func = None\<rparr> 2 1)
     [[Num 1], [Num 3]] = Inr ([Num 2], Num 2)"
proof -
  have "values_owner C_NumpyArrayIndexParameterRecorder = Some C_Recorder"
    by (simp add: values_owner_def defines_values_def eval_nat_numeral)
  moreover have "values_owner C_NumpyArrayParameterRecorder = Some C_NumpyArrayParameterRecorder"
    by (simp add: values_owner_def defines_values_def eval_nat_numeral)
  moreover have "NumpyArrayIndexParameter_values self = Inl NotImplementedError"
    by (simp add: NumpyArrayIndexParameter_values_def Recorder_values_def)
  moreover have "aggregated_value self (NumpyArrayIndexParameter_values self) = Inl NotImplementedError"
    by (simp add: NumpyArrayIndexParameter_values_def Recorder_values_def aggregated_value_def)
  moreover have "NumpyArrayIndexParameter_run
     (NumpyArrayIndexParameter_setup
        \<lparr>ignore_nan = False, is_objective = NONE, is_constraint = False, epsilon = Num 1,
         scenario_aggregator = \<lparr>func = Agg_MEAN, user_func = None\<rparr>\<rparr>
        \<lparr>func = Agg_MEAN, user_func = None\<rparr> 2 1)
     [[1], [3]] = Inl NotImplementedError"
    by code_simp
  moreover have "NumpyArrayParameter_run
     (NumpyArrayParameter_setup
        \<lparr>ignore_nan = False, is_objective = NONE, is_constraint = False, epsilon = Num 1,
         scenario_aggregator = \<lparr>func = Agg_MEAN, user_func = None\<rparr>\<rparr>
        \<lparr>func = Agg_MEAN, user_func = None\<rparr> 2 1)
     [[Num 1], [Num 3]] = Inr ([Num 2], Num 2)"
    by code_simp
  ultimately show ?thesis by blast
qed

end
